theory Spec2Isabelle
  imports Complex_Main "HOL-Library.Char_ord" "HOL-Library.List_Lexorder" "HOL-Library.Sublist"
    "HOL-Library.Multiset"
begin

section \<open>Python values used by the budget tracker\<close>

subsection \<open>Exceptions\<close>

text \<open>
  The exceptions the program can raise on the paths modelled here. \<open>JSONDecodeError\<close>
  is a subclass of \<open>ValueError\<close> in Python, which matters for the handler
  \<^verbatim>\<open>except ValueError\<close> of \<open>main\<close>.
\<close>

datatype error =
    KeyError string
  | ValueError
  | JSONDecodeError
  | OverflowError
  | EOFError
  | TypeError

fun is_ValueError :: "error \<Rightarrow> bool" where
  "is_ValueError ValueError = True"
| "is_ValueError JSONDecodeError = True"
| "is_ValueError _ = False"

subsection \<open>Floats\<close>

text \<open>
  A Python float is an IEEE 754 binary64 number. It is modelled by its value: a finite
  number (an exact rational, \<open>Finite 0\<close> being \<open>0.0\<close>), the negative zero, one of the
  two infinities, or NaN. Every operation rounds its exact result to the nearest
  double, ties to the even mantissa, as the hardware does: \<open>round_double\<close>.

  A double has a mantissa of 53 bits; the smallest exponent of its last bit is -1074
  (subnormal numbers), and a rounded value of \<open>2 ^ 1024\<close> or more is an infinity.
\<close>

datatype pyfloat = Finite rat | NegZero | PosInf | NegInf | NaN

text \<open>\<open>int.bit_length()\<close>: the number of binary digits of a positive integer.\<close>

function bit_length :: "int \<Rightarrow> nat" where
  "bit_length n = (if n \<le> 0 then 0 else Suc (bit_length (n div 2)))"
  by pat_completeness auto
termination
  by (relation "measure nat") auto

declare bit_length.simps [simp del]

definition pow2 :: "int \<Rightarrow> rat" where
  "pow2 e = (if 0 \<le> e then 2 ^ nat e else 1 / 2 ^ nat (- e))"

text \<open>For \<open>a > 0\<close>, the integer \<open>k\<close> with \<open>2 ^ k \<le> a < 2 ^ (k + 1)\<close>.\<close>

definition floor_log2 :: "rat \<Rightarrow> int" where
  "floor_log2 a =
     (if 1 \<le> a then int (bit_length \<lfloor>a\<rfloor>) - 1
      else - int (bit_length (\<lceil>1 / a\<rceil> - 1)))"

definition round_half_even :: "rat \<Rightarrow> int" where
  "round_half_even x =
     (let f = \<lfloor>x\<rfloor>; r = x - of_int f
      in if r < 1 / 2 then f
         else if 1 / 2 < r then f + 1
         else if even f then f else f + 1)"

definition round_double :: "rat \<Rightarrow> pyfloat" where
  "round_double q =
     (if q = 0 then Finite 0
      else
        (let a = \<bar>q\<bar>;
             e = max (floor_log2 a - 52) (- 1074);
             m = round_half_even (a / pow2 e);
             v = of_int m * pow2 e
         in if 2 ^ 1024 \<le> v then (if q < 0 then NegInf else PosInf)
            else if m = 0 then (if q < 0 then NegZero else Finite 0)
            else Finite (if q < 0 then - v else v)))"

text \<open>
  The addition of two floats. The sum of a number and its negative is \<open>0.0\<close>, and
  \<open>-0.0\<close> is the sum only of two negative zeros.
\<close>

fun fadd :: "pyfloat \<Rightarrow> pyfloat \<Rightarrow> pyfloat" where
  "fadd NaN _ = NaN"
| "fadd _ NaN = NaN"
| "fadd PosInf NegInf = NaN"
| "fadd NegInf PosInf = NaN"
| "fadd PosInf _ = PosInf"
| "fadd _ PosInf = PosInf"
| "fadd NegInf _ = NegInf"
| "fadd _ NegInf = NegInf"
| "fadd NegZero y = y"
| "fadd x NegZero = x"
| "fadd (Finite a) (Finite b) = round_double (a + b)"

text \<open>\<open>math.isfinite\<close>, and the test \<open>x >= 0\<close> (false for NaN, true for \<open>-0.0\<close>).\<close>

fun isfinite :: "pyfloat \<Rightarrow> bool" where
  "isfinite (Finite _) = True"
| "isfinite NegZero = True"
| "isfinite _ = False"

fun nonnegative :: "pyfloat \<Rightarrow> bool" where
  "nonnegative (Finite r) = (0 \<le> r)"
| "nonnegative NegZero = True"
| "nonnegative PosInf = True"
| "nonnegative _ = False"

text \<open>The number a float stands for, where it stands for one.\<close>

fun value_of :: "pyfloat \<Rightarrow> rat" where
  "value_of (Finite r) = r"
| "value_of _ = 0"

subsection \<open>Strings\<close>

text \<open>
  A Python \<open>str\<close> is a \<open>string\<close>: a list of characters with code points below 256,
  compared lexicographically by code point, as Python compares strings.
\<close>

definition is_digit :: "char \<Rightarrow> bool" where
  "is_digit c = (CHR ''0'' \<le> c \<and> c \<le> CHR ''9'')"

definition digit_val :: "char \<Rightarrow> nat" where
  "digit_val c = of_char c - 48"

definition digit_char :: "nat \<Rightarrow> char" where
  "digit_char n = char_of (48 + n)"

text \<open>The characters \<open>str.strip()\<close> removes: Python's whitespace below 256.\<close>

definition is_space :: "char \<Rightarrow> bool" where
  "is_space c = (of_char c \<in> {9, 10, 11, 12, 13, 28, 29, 30, 31, 32, 133, 160 :: nat})"

definition strip :: "string \<Rightarrow> string" where
  "strip s = rev (dropWhile is_space (rev (dropWhile is_space s)))"

text \<open>
  The characters \<open>float()\<close> removes around a number: the ASCII whitespace of C
  (tab to carriage return, and the space) and the two whitespace characters from 128
  on, which it first turns into spaces. The separators U+001C to U+001F, which
  \<open>str.strip()\<close> removes, are not among them.
\<close>

definition is_float_space :: "char \<Rightarrow> bool" where
  "is_float_space c = (of_char c \<in> {9, 10, 11, 12, 13, 32, 133, 160 :: nat})"

definition float_strip :: "string \<Rightarrow> string" where
  "float_strip s = rev (dropWhile is_float_space (rev (dropWhile is_float_space s)))"

text \<open>\<open>str.lower()\<close> on ASCII letters, enough for the words \<open>inf\<close>, \<open>infinity\<close>, \<open>nan\<close>.\<close>

definition lower_char :: "char \<Rightarrow> char" where
  "lower_char c = (if CHR ''A'' \<le> c \<and> c \<le> CHR ''Z'' then char_of (of_char c + (32::nat)) else c)"

subsection \<open>The builtin \<open>float()\<close>\<close>

text \<open>
  \<open>float(s)\<close> on a string follows the grammar of the language reference: surrounding
  whitespace is removed; an optional sign is followed by \<open>inf\<close>, \<open>infinity\<close> or
  \<open>nan\<close> in any case, or by a decimal number with an optional exponent. Digits may
  be grouped by single underscores. Anything else raises \<open>ValueError\<close>. The decimal
  number is rounded to the nearest double; a zero keeps its sign.
\<close>

fun digits_acc :: "int \<Rightarrow> nat \<Rightarrow> string \<Rightarrow> int \<times> nat \<times> string" where
  "digits_acc v n [] = (v, n, [])"
| "digits_acc v n (c # cs) =
     (if is_digit c then digits_acc (10 * v + int (digit_val c)) (Suc n) cs
      else if c = CHR ''_'' \<and> (case cs of [] \<Rightarrow> False | d # _ \<Rightarrow> is_digit d)
        then digits_acc v n cs
      else (v, n, c # cs))"

definition digitpart :: "string \<Rightarrow> (int \<times> nat \<times> string) option" where
  "digitpart s =
     (case s of
        [] \<Rightarrow> None
      | c # cs \<Rightarrow> if is_digit c then Some (digits_acc (int (digit_val c)) 1 cs) else None)"

definition parse_sign :: "string \<Rightarrow> bool \<times> string" where
  "parse_sign s =
     (case s of
        [] \<Rightarrow> (False, [])
      | c # cs \<Rightarrow>
          if c = CHR ''-'' then (True, cs)
          else if c = CHR ''+'' then (False, cs)
          else (False, c # cs))"

definition parse_mantissa :: "string \<Rightarrow> (rat \<times> string) option" where
  "parse_mantissa s =
     (case digitpart s of
        Some (iv, _, r1) \<Rightarrow>
          (case r1 of
             [] \<Rightarrow> Some (of_int iv, [])
           | c # r2 \<Rightarrow>
               if c = CHR ''.'' then
                 (case digitpart r2 of
                    Some (fv, k, r3) \<Rightarrow> Some (of_int iv + of_int fv / 10 ^ k, r3)
                  | None \<Rightarrow> Some (of_int iv, r2))
               else Some (of_int iv, r1))
      | None \<Rightarrow>
          (case s of
             [] \<Rightarrow> None
           | c # r2 \<Rightarrow>
               if c = CHR ''.'' then
                 (case digitpart r2 of
                    Some (fv, k, r3) \<Rightarrow> Some (of_int fv / 10 ^ k, r3)
                  | None \<Rightarrow> None)
               else None))"

definition parse_exponent :: "string \<Rightarrow> (bool \<times> nat) option" where
  "parse_exponent s =
     (case s of
        [] \<Rightarrow> Some (False, 0)
      | c # r \<Rightarrow>
          if c = CHR ''e'' \<or> c = CHR ''E'' then
            (case parse_sign r of
               (neg, r1) \<Rightarrow>
                 (case digitpart r1 of
                    Some (ev, _, r2) \<Rightarrow> if r2 = [] then Some (neg, nat ev) else None
                  | None \<Rightarrow> None))
          else None)"

definition float_of_string :: "string \<Rightarrow> error + pyfloat" where
  "float_of_string s =
     (case parse_sign (float_strip s) of
        (neg, body) \<Rightarrow>
          if map lower_char body = ''inf'' \<or> map lower_char body = ''infinity''
            then Inr (if neg then NegInf else PosInf)
          else if map lower_char body = ''nan'' then Inr NaN
          else
            (case parse_mantissa body of
               None \<Rightarrow> Inl ValueError
             | Some (m, r) \<Rightarrow>
                 (case parse_exponent r of
                    None \<Rightarrow> Inl ValueError
                  | Some (eneg, ev) \<Rightarrow>
                      (let v = (if eneg then m / 10 ^ ev else m * 10 ^ ev)
                       in if v = 0 then Inr (if neg then NegZero else Finite 0)
                          else Inr (round_double (if neg then - v else v))))))"

text \<open>
  The argument \<open>amount\<close> of \<open>add_expense\<close> is a float already (as \<open>main\<close> passes it),
  an int, a string or \<open>None\<close>. \<open>float(x)\<close> of a float is \<open>x\<close>; of an int it is the
  nearest double, or \<open>OverflowError\<close> when the int is too large; of \<open>None\<close> it is a
  \<open>TypeError\<close>.
\<close>

datatype pyarg = ArgFloat pyfloat | ArgInt int | ArgStr string | ArgNone

fun py_float :: "pyarg \<Rightarrow> error + pyfloat" where
  "py_float (ArgFloat x) = Inr x"
| "py_float (ArgInt n) =
     (case round_double (of_int n) of
        PosInf \<Rightarrow> Inl OverflowError
      | NegInf \<Rightarrow> Inl OverflowError
      | x \<Rightarrow> Inr x)"
| "py_float (ArgStr s) = float_of_string s"
| "py_float ArgNone = Inl TypeError"

subsection \<open>Calendar dates\<close>

text \<open>
  \<open>datetime.date\<close>: year, month and day of the proleptic Gregorian calendar, with
  the library's own arithmetic (\<open>_days_before_year\<close>, \<open>_days_in_month\<close>,
  \<open>_ymd2ord\<close>, \<open>weekday\<close>) and its range \<open>MINYEAR = 1\<close>, \<open>MAXYEAR = 9999\<close>.
\<close>

record pydate =
  year :: nat
  month :: nat
  day :: nat

definition is_leap :: "nat \<Rightarrow> bool" where
  "is_leap y = (y mod 4 = 0 \<and> (y mod 100 \<noteq> 0 \<or> y mod 400 = 0))"

definition days_in_month :: "nat \<Rightarrow> nat \<Rightarrow> nat" where
  "days_in_month y m =
     (if m = 2 then (if is_leap y then 29 else 28)
      else if m = 4 \<or> m = 6 \<or> m = 9 \<or> m = 11 then 30
      else 31)"

definition valid_date :: "pydate \<Rightarrow> bool" where
  "valid_date d =
     (1 \<le> year d \<and> year d \<le> 9999 \<and> 1 \<le> month d \<and> month d \<le> 12 \<and>
      1 \<le> day d \<and> day d \<le> days_in_month (year d) (month d))"

definition days_before_year :: "nat \<Rightarrow> nat" where
  "days_before_year y =
     (y - 1) * 365 + (y - 1) div 4 + (y - 1) div 400 - (y - 1) div 100"

definition days_before_month :: "nat \<Rightarrow> nat \<Rightarrow> nat" where
  "days_before_month y m = sum_list (map (days_in_month y) [1..<m])"

definition toordinal :: "pydate \<Rightarrow> nat" where
  "toordinal d = days_before_year (year d) + days_before_month (year d) (month d) + day d"

definition max_ordinal :: nat where
  "max_ordinal = 3652059"

definition weekday :: "pydate \<Rightarrow> nat" where
  "weekday d = (toordinal d + 6) mod 7"

text \<open>Dates compare as the triples (year, month, day).\<close>

definition date_le :: "pydate \<Rightarrow> pydate \<Rightarrow> bool" where
  "date_le a b =
     (year a < year b \<or>
      (year a = year b \<and> (month a < month b \<or> (month a = month b \<and> day a \<le> day b))))"

definition next_day :: "pydate \<Rightarrow> pydate" where
  "next_day d =
     (if day d < days_in_month (year d) (month d) then d\<lparr>day := day d + 1\<rparr>
      else if month d < 12 then \<lparr>year = year d, month = month d + 1, day = 1\<rparr>
      else \<lparr>year = year d + 1, month = 1, day = 1\<rparr>)"

definition prev_day :: "pydate \<Rightarrow> pydate" where
  "prev_day d =
     (if 1 < day d then d\<lparr>day := day d - 1\<rparr>
      else if 1 < month d
        then \<lparr>year = year d, month = month d - 1,
              day = days_in_month (year d) (month d - 1)\<rparr>
      else \<lparr>year = year d - 1, month = 12, day = 31\<rparr>)"

text \<open>
  \<open>d - timedelta(days=n)\<close> and \<open>d + timedelta(days=n)\<close>: the date \<open>n\<close> days earlier
  or later, \<open>OverflowError\<close> when it leaves the range of ordinals \<open>1 .. max_ordinal\<close>.
\<close>

definition date_sub_days :: "pydate \<Rightarrow> nat \<Rightarrow> error + pydate" where
  "date_sub_days d n =
     (if toordinal d \<le> n then Inl OverflowError else Inr ((prev_day ^^ n) d))"

definition date_add_days :: "pydate \<Rightarrow> nat \<Rightarrow> error + pydate" where
  "date_add_days d n =
     (if max_ordinal < toordinal d + n then Inl OverflowError else Inr ((next_day ^^ n) d))"

text \<open>
  \<open>strftime('%Y-%m-%d')\<close> and \<open>str(date)\<close>: four digits of year, two of month, two
  of day. (For a year below 1000 the C library of some platforms does not pad \<open>%Y\<close>;
  the clock of the program is taken to read a year of four digits, see \<open>clock_date\<close>.)
\<close>

definition digits2 :: "nat \<Rightarrow> string" where
  "digits2 n = [digit_char (n div 10 mod 10), digit_char (n mod 10)]"

definition digits4 :: "nat \<Rightarrow> string" where
  "digits4 n = [digit_char (n div 1000 mod 10), digit_char (n div 100 mod 10),
                digit_char (n div 10 mod 10), digit_char (n mod 10)]"

definition strftime_ymd :: "pydate \<Rightarrow> string" where
  "strftime_ymd d = digits4 (year d) @ ''-'' @ digits2 (month d) @ ''-'' @ digits2 (day d)"

definition clock_date :: "pydate \<Rightarrow> bool" where
  "clock_date d = (valid_date d \<and> 1000 \<le> year d)"

text \<open>
  \<open>datetime.strptime(s, '%Y-%m-%d').date()\<close>. The library matches the regular
  expression \<^verbatim>\<open>(\d\d\d\d)-(1[0-2]|0[1-9]|[1-9])-(3[0-1]|[1-2]\d|0[1-9]|[1-9]| [1-9])\<close>
  against the whole string and then builds the date, which checks the year and the
  day of the month; every failure is a \<open>ValueError\<close>.
\<close>

definition parse_month :: "string \<Rightarrow> nat option" where
  "parse_month s =
     (case s of
        [a] \<Rightarrow> if CHR ''1'' \<le> a \<and> a \<le> CHR ''9'' then Some (digit_val a) else None
      | [a, b] \<Rightarrow>
          if (a = CHR ''1'' \<and> CHR ''0'' \<le> b \<and> b \<le> CHR ''2'') \<or>
             (a = CHR ''0'' \<and> CHR ''1'' \<le> b \<and> b \<le> CHR ''9'')
          then Some (10 * digit_val a + digit_val b) else None
      | _ \<Rightarrow> None)"

definition parse_day :: "string \<Rightarrow> nat option" where
  "parse_day s =
     (case s of
        [a] \<Rightarrow> if CHR ''1'' \<le> a \<and> a \<le> CHR ''9'' then Some (digit_val a) else None
      | [a, b] \<Rightarrow>
          if (a = CHR ''3'' \<and> CHR ''0'' \<le> b \<and> b \<le> CHR ''1'') \<or>
             (CHR ''1'' \<le> a \<and> a \<le> CHR ''2'' \<and> is_digit b) \<or>
             (a = CHR ''0'' \<and> CHR ''1'' \<le> b \<and> b \<le> CHR ''9'')
          then Some (10 * digit_val a + digit_val b)
          else if a = CHR '' '' \<and> CHR ''1'' \<le> b \<and> b \<le> CHR ''9'' then Some (digit_val b)
          else None
      | _ \<Rightarrow> None)"

definition split_month :: "string \<Rightarrow> (string \<times> string) option" where
  "split_month s =
     (case s of
        m1 # m2 # r \<Rightarrow>
          if m2 = CHR ''-'' then Some ([m1], r)
          else (case r of
                  [] \<Rightarrow> None
                | c # r' \<Rightarrow> if c = CHR ''-'' then Some ([m1, m2], r') else None)
      | _ \<Rightarrow> None)"

definition strptime_ymd :: "string \<Rightarrow> error + pydate" where
  "strptime_ymd s =
     (case s of
        y1 # y2 # y3 # y4 # c # rest \<Rightarrow>
          if is_digit y1 \<and> is_digit y2 \<and> is_digit y3 \<and> is_digit y4 \<and> c = CHR ''-'' then
            (case split_month rest of
               None \<Rightarrow> Inl ValueError
             | Some (ms, ds) \<Rightarrow>
                 (case (parse_month ms, parse_day ds) of
                    (Some m, Some dd) \<Rightarrow>
                      (let d = \<lparr>year = 1000 * digit_val y1 + 100 * digit_val y2 +
                                        10 * digit_val y3 + digit_val y4,
                                month = m, day = dd\<rparr>
                       in if valid_date d then Inr d else Inl ValueError)
                  | _ \<Rightarrow> Inl ValueError))
          else Inl ValueError
      | _ \<Rightarrow> Inl ValueError)"

section \<open>The budget tracker (\<open>src/app.py\<close>)\<close>

subsection \<open>Data\<close>

text \<open>
  An expense is a Python dict with the keys \<open>date\<close>, \<open>amount\<close>, \<open>category\<close> and
  \<open>description\<close>. A record loaded from the file may lack any of them (\<open>None\<close> below:
  the key is absent, \<open>expense['k']\<close> raises \<open>KeyError\<close>); a key that is present holds
  a value of the type the file format gives it: a string, and a number for \<open>amount\<close>.
  The \<open>date\<close> is any string, not necessarily a date.
\<close>

record expense =
  date :: "string option"
  amount :: "pyfloat option"
  category :: "string option"
  description :: "string option"

definition getitem :: "string \<Rightarrow> 'a option \<Rightarrow> error + 'a" where
  "getitem k v = (case v of None \<Rightarrow> Inl (KeyError k) | Some x \<Rightarrow> Inr x)"

text \<open>
  The backing file. The text layer of the \<open>json\<close> module is not modelled: a file
  holds either a document that \<open>json.load\<close> reads as a list of expense dicts (what
  \<open>json.dump\<close> of such a list writes), or content that does not parse.
\<close>

datatype file_content = JsonDoc "expense list" | Malformed

definition json_dump :: "expense list \<Rightarrow> file_content" where
  "json_dump xs = JsonDoc xs"

fun json_load :: "file_content \<Rightarrow> error + expense list" where
  "json_load (JsonDoc xs) = Inr xs"
| "json_load Malformed = Inl JSONDecodeError"

text \<open>
  What the program prints. One entry per line of output; a prompt of \<open>input()\<close> is
  an entry of its own. Lines that format a float (\<^verbatim>\<open>{amount:>8.2f}\<close>) keep the value
  instead of its digits, and the padding of the columns is not modelled; the lines with
  characters outside ASCII are constructors.
\<close>

datatype line =
    Text string
  | Prompt string
  | CategoryRow string pyfloat
  | TotalRow pyfloat
  | ExpenseRow string string pyfloat string
  | AddedMsg pyfloat string
  | MenuTitle
  | InvalidAmountMsg
  | InvalidOptionMsg
  | GoodbyeMsg

text \<open>
  The world outside the object: the file system (a path is absent or has content),
  the terminal output so far, and the date \<open>datetime.now()\<close> reads.
\<close>

record world =
  files :: "string \<Rightarrow> file_content option"
  stdout :: "line list"
  now :: pydate

record tracker =
  filename :: string
  expenses :: "expense list"

definition print :: "line list \<Rightarrow> world \<Rightarrow> world" where
  "print ls w = w\<lparr>stdout := stdout w @ ls\<rparr>"

subsection \<open>Loading and saving\<close>

text \<open>\<open>load_expenses\<close> reads \<open>self.filename\<close> only; \<open>__init__\<close> calls it before
  \<open>self.expenses\<close> exists.\<close>

definition load_expenses :: "string \<Rightarrow> world \<Rightarrow> error + expense list" where
  "load_expenses fn w =
     (case files w fn of
        Some content \<Rightarrow> json_load content
      | None \<Rightarrow> Inr [])"

definition init :: "string \<Rightarrow> world \<Rightarrow> error + tracker" where
  "init fn w =
     (case load_expenses fn w of
        Inl e \<Rightarrow> Inl e
      | Inr xs \<Rightarrow> Inr \<lparr>filename = fn, expenses = xs\<rparr>)"

definition save_expenses :: "tracker \<Rightarrow> world \<Rightarrow> world" where
  "save_expenses t w = w\<lparr>files := (files w)(filename t \<mapsto> json_dump (expenses t))\<rparr>"

subsection \<open>\<open>add_expense\<close>\<close>

text \<open>
  The dict is built (\<open>float(amount)\<close> may raise), appended and saved; then the
  confirmation is printed, and \<^verbatim>\<open>{amount:.2f}\<close> raises \<open>ValueError\<close> when the argument
  is a string (an int is formatted as its float; \<open>None\<close> does not get this far).
\<close>

definition add_expense ::
  "pyarg \<Rightarrow> string \<Rightarrow> string \<Rightarrow> tracker \<Rightarrow> world \<Rightarrow> error option \<times> tracker \<times> world" where
  "add_expense amt cat descr t w =
     (case py_float amt of
        Inl e \<Rightarrow> (Some e, t, w)
      | Inr x \<Rightarrow>
          (let e = \<lparr>date = Some (strftime_ymd (now w)), amount = Some x,
                    category = Some cat, description = Some descr\<rparr>;
               t' = t\<lparr>expenses := expenses t @ [e]\<rparr>;
               w' = save_expenses t' w
           in case amt of
                ArgFloat v \<Rightarrow> (None, t', print [AddedMsg v cat] w')
              | ArgInt _ \<Rightarrow> (None, t', print [AddedMsg x cat] w')
              | ArgStr _ \<Rightarrow> (Some ValueError, t', w')
              | ArgNone \<Rightarrow> (Some TypeError, t', w')))"

subsection \<open>\<open>get_week_range\<close> and \<open>weekly_summary\<close>\<close>

definition get_week_range :: "world \<Rightarrow> error + (pydate \<times> pydate)" where
  "get_week_range w =
     (let today = now w in
      case date_sub_days today (weekday today) of
        Inl e \<Rightarrow> Inl e
      | Inr start \<Rightarrow>
          (case date_add_days start 6 of
             Inl e \<Rightarrow> Inl e
           | Inr end_date \<Rightarrow> Inr (start, end_date)))"

text \<open>The loop that filters the expenses of this week.\<close>

fun filter_week :: "pydate \<Rightarrow> pydate \<Rightarrow> expense list \<Rightarrow> error + expense list" where
  "filter_week start_date end_date [] = Inr []"
| "filter_week start_date end_date (x # xs) =
     (case getitem ''date'' (date x) of
        Inl e \<Rightarrow> Inl e
      | Inr ds \<Rightarrow>
          (case strptime_ymd ds of
             Inl e \<Rightarrow> Inl e
           | Inr expense_date \<Rightarrow>
               (case filter_week start_date end_date xs of
                  Inl e \<Rightarrow> Inl e
                | Inr weekly \<Rightarrow>
                    Inr (if date_le start_date expense_date \<and> date_le expense_date end_date
                         then x # weekly else weekly))))"

text \<open>
  \<open>category_totals\<close> is a \<open>defaultdict(float)\<close>: a dict in insertion order, here an
  association list. \<^verbatim>\<open>category_totals[k] += v\<close> adds to the entry of \<open>k\<close>, which
  starts at \<open>0.0\<close>.
\<close>

fun add_to :: "string \<Rightarrow> pyfloat \<Rightarrow> (string \<times> pyfloat) list \<Rightarrow> (string \<times> pyfloat) list" where
  "add_to k v [] = [(k, fadd (Finite 0) v)]"
| "add_to k v ((k', s) # r) =
     (if k = k' then (k', fadd s v) # r else (k', s) # add_to k v r)"

fun category_totals ::
  "(string \<times> pyfloat) list \<Rightarrow> expense list \<Rightarrow> error + (string \<times> pyfloat) list" where
  "category_totals acc [] = Inr acc"
| "category_totals acc (x # xs) =
     (case getitem ''category'' (category x) of
        Inl e \<Rightarrow> Inl e
      | Inr c \<Rightarrow>
          (case getitem ''amount'' (amount x) of
             Inl e \<Rightarrow> Inl e
           | Inr a \<Rightarrow> category_totals (add_to c a acc) xs))"

text \<open>
  \<open>sorted(category_totals.items())\<close>: the keys of a dict are distinct, so the pairs
  are ordered by their category. The loop over them prints a row each and sums up,
  from \<open>total = 0\<close>.
\<close>

definition sorted_items :: "(string \<times> pyfloat) list \<Rightarrow> (string \<times> pyfloat) list" where
  "sorted_items items = sort_key fst items"

definition summary_header :: "pydate \<Rightarrow> pydate \<Rightarrow> line list" where
  "summary_header start_date end_date =
     [Text '''', Text (replicate 50 CHR ''=''),
      Text (''WEEKLY SUMMARY ('' @ strftime_ymd start_date @ '' to '' @
            strftime_ymd end_date @ '')''),
      Text (replicate 50 CHR ''=''), Text '''']"

definition summary_table :: "(string \<times> pyfloat) list \<Rightarrow> line list" where
  "summary_table items =
     map (\<lambda>(c, a). CategoryRow c a) items @
     [Text (replicate 50 CHR ''-''), TotalRow (foldl fadd (Finite 0) (map snd items)),
      Text (replicate 50 CHR ''=''), Text '''']"

definition weekly_summary :: "tracker \<Rightarrow> world \<Rightarrow> error option \<times> tracker \<times> world" where
  "weekly_summary t w =
     (case get_week_range w of
        Inl e \<Rightarrow> (Some e, t, w)
      | Inr (start_date, end_date) \<Rightarrow>
          (let w1 = print (summary_header start_date end_date) w in
           case filter_week start_date end_date (expenses t) of
             Inl e \<Rightarrow> (Some e, t, w1)
           | Inr weekly_expenses \<Rightarrow>
               if weekly_expenses = []
               then (None, t, print [Text ''No expenses recorded this week.''] w1)
               else
                 (case category_totals [] weekly_expenses of
                    Inl e \<Rightarrow> (Some e, t, w1)
                  | Inr totals \<Rightarrow> (None, t, print (summary_table (sorted_items totals)) w1))))"

subsection \<open>\<open>list_all_expenses\<close>\<close>

text \<open>
  \<^verbatim>\<open>sorted(self.expenses, key=lambda x: x['date'], reverse=True)\<close>: the keys are
  computed first, for every element in order; then the list is reversed, sorted by key
  with a stable sort and reversed again, which is how \<open>reverse=True\<close> keeps the sort
  stable.
\<close>

fun date_keys :: "expense list \<Rightarrow> error + string list" where
  "date_keys [] = Inr []"
| "date_keys (x # xs) =
     (case getitem ''date'' (date x) of
        Inl e \<Rightarrow> Inl e
      | Inr k \<Rightarrow> (case date_keys xs of Inl e \<Rightarrow> Inl e | Inr ks \<Rightarrow> Inr (k # ks)))"

definition sorted_reverse :: "('k::linorder \<times> 'a) list \<Rightarrow> 'a list" where
  "sorted_reverse kxs = map snd (rev (sort_key fst (rev kxs)))"

definition sorted_by_date_desc :: "expense list \<Rightarrow> error + expense list" where
  "sorted_by_date_desc xs =
     (case date_keys xs of
        Inl e \<Rightarrow> Inl e
      | Inr ks \<Rightarrow> Inr (sorted_reverse (zip ks xs)))"

definition get_description :: "expense \<Rightarrow> string" where
  "get_description x = (case description x of None \<Rightarrow> '''' | Some s \<Rightarrow> s)"

fun print_rows :: "expense list \<Rightarrow> world \<Rightarrow> error option \<times> world" where
  "print_rows [] w = (None, w)"
| "print_rows (x # xs) w =
     (let desc = take 28 (get_description x) in
      case getitem ''date'' (date x) of
        Inl e \<Rightarrow> (Some e, w)
      | Inr ds \<Rightarrow>
          (case getitem ''category'' (category x) of
             Inl e \<Rightarrow> (Some e, w)
           | Inr c \<Rightarrow>
               (case getitem ''amount'' (amount x) of
                  Inl e \<Rightarrow> (Some e, w)
                | Inr a \<Rightarrow> print_rows xs (print [ExpenseRow ds c a desc] w))))"

definition ljust :: "nat \<Rightarrow> string \<Rightarrow> string" where
  "ljust n s = s @ replicate (n - length s) CHR '' ''"

definition list_header :: "line list" where
  "list_header =
     [Text '''',
      Text (ljust 12 ''Date'' @ '' '' @ ljust 15 ''Category'' @ '' '' @ ljust 10 ''Amount'' @
            '' '' @ ljust 30 ''Description''),
      Text (replicate 70 CHR ''-'')]"

definition list_all_expenses :: "tracker \<Rightarrow> world \<Rightarrow> error option \<times> tracker \<times> world" where
  "list_all_expenses t w =
     (if expenses t = [] then (None, t, print [Text ''No expenses recorded yet.''] w)
      else
        (let w1 = print list_header w in
         case sorted_by_date_desc (expenses t) of
           Inl e \<Rightarrow> (Some e, t, w1)
         | Inr srt \<Rightarrow>
             (case print_rows srt w1 of
                (Some e, w2) \<Rightarrow> (Some e, t, w2)
              | (None, w2) \<Rightarrow> (None, t, print [Text ''''] w2))))"

subsection \<open>\<open>main\<close>\<close>

text \<open>
  The menu loop, over the lines the user types. \<open>input()\<close> prints its prompt and
  takes the next line; with no line left it raises \<open>EOFError\<close>, which nothing catches.
  Only the branch of choice 1 has a handler, for \<open>ValueError\<close>.
\<close>

definition menu :: "line list" where
  "menu =
     [Text '''', MenuTitle, Text ''1. Add expense'', Text ''2. Weekly summary'',
      Text ''3. List all expenses'', Text ''4. Exit'',
      Text '''', Prompt ''Choose an option (1-4): '']"

fun main_loop :: "tracker \<Rightarrow> world \<Rightarrow> string list \<Rightarrow> error option \<times> tracker \<times> world" where
  "main_loop t w [] = (Some EOFError, t, print menu w)"
| "main_loop t w (inp # ins) =
     (let w1 = print menu w; choice = strip inp in
      if choice = ''1'' then
        (case ins of
           [] \<Rightarrow> (Some EOFError, t, print [Prompt ''Amount: $''] w1)
         | a # ins1 \<Rightarrow>
             (let w2 = print [Prompt ''Amount: $''] w1 in
              case float_of_string a of
                Inl e \<Rightarrow>
                  if is_ValueError e then main_loop t (print [InvalidAmountMsg] w2) ins1
                  else (Some e, t, w2)
              | Inr x \<Rightarrow>
                  (let w3 = print [Prompt ''Category (e.g., Food, Transport, Entertainment): ''] w2 in
                   case ins1 of
                     [] \<Rightarrow> (Some EOFError, t, w3)
                   | c # ins2 \<Rightarrow>
                       (let w4 = print [Prompt ''Description (optional): ''] w3 in
                        case ins2 of
                          [] \<Rightarrow> (Some EOFError, t, w4)
                        | d # ins3 \<Rightarrow>
                            (case add_expense (ArgFloat x) (strip c) (strip d) t w4 of
                               (None, t', w') \<Rightarrow> main_loop t' w' ins3
                             | (Some e, t', w') \<Rightarrow>
                                 if is_ValueError e
                                 then main_loop t' (print [InvalidAmountMsg] w') ins3
                                 else (Some e, t', w'))))))
      else if choice = ''2'' then
        (case weekly_summary t w1 of
           (None, t', w') \<Rightarrow> main_loop t' w' ins
         | (Some e, t', w') \<Rightarrow> (Some e, t', w'))
      else if choice = ''3'' then
        (case list_all_expenses t w1 of
           (None, t', w') \<Rightarrow> main_loop t' w' ins
         | (Some e, t', w') \<Rightarrow> (Some e, t', w'))
      else if choice = ''4'' then (None, t, print [GoodbyeMsg] w1)
      else main_loop t (print [InvalidOptionMsg] w1) ins)"

definition main :: "world \<Rightarrow> string list \<Rightarrow> error option \<times> world" where
  "main w ins =
     (case init ''expenses.json'' w of
        Inl e \<Rightarrow> (Some e, w)
      | Inr t \<Rightarrow> (case main_loop t w ins of (r, _, w') \<Rightarrow> (r, w')))"

section \<open>Notions of the specification\<close>

text \<open>
  The definitions of this section are not code of the program: they say, in the
  words of its specification, what the output is compared with.
\<close>

subsection \<open>The weekly window\<close>

text \<open>A record lies in the window when its date parses to a day from start to end.\<close>

definition in_window :: "pydate \<Rightarrow> pydate \<Rightarrow> expense \<Rightarrow> bool" where
  "in_window s e x =
     (case date x of
        None \<Rightarrow> False
      | Some ds \<Rightarrow>
          (case strptime_ymd ds of
             Inl _ \<Rightarrow> False
           | Inr d \<Rightarrow> date_le s d \<and> date_le d e))"

definition amount_of :: "expense \<Rightarrow> pyfloat" where
  "amount_of x = (case amount x of None \<Rightarrow> Finite 0 | Some a \<Rightarrow> a)"

definition category_of :: "expense \<Rightarrow> string" where
  "category_of x = (case category x of None \<Rightarrow> '''' | Some c \<Rightarrow> c)"

definition date_of :: "expense \<Rightarrow> string" where
  "date_of x = (case date x of None \<Rightarrow> '''' | Some ds \<Rightarrow> ds)"

text \<open>
  The sum of the amount fields of the records of the window, as a sum of numbers:
  what the description of the program calls the grand total.
\<close>

definition exact_window_sum :: "pydate \<Rightarrow> pydate \<Rightarrow> expense list \<Rightarrow> rat" where
  "exact_window_sum s e xs =
     sum_list (map (\<lambda>x. value_of (amount_of x)) (filter (in_window s e) xs))"

text \<open>
  The sums in floating point. The total of a category adds the amounts of the records
  of the window with that category, in the order of the store, starting from \<open>0.0\<close>;
  the grand total adds the totals of the categories, in the sorted order of the
  categories, starting from 0.
\<close>

definition window_category_total :: "pydate \<Rightarrow> pydate \<Rightarrow> expense list \<Rightarrow> string \<Rightarrow> pyfloat" where
  "window_category_total s e xs c =
     foldl fadd (Finite 0)
       (map amount_of (filter (\<lambda>x. in_window s e x \<and> category x = Some c) xs))"

definition window_categories :: "pydate \<Rightarrow> pydate \<Rightarrow> expense list \<Rightarrow> string list" where
  "window_categories s e xs = sort (remdups (map category_of (filter (in_window s e) xs)))"

definition window_total :: "pydate \<Rightarrow> pydate \<Rightarrow> expense list \<Rightarrow> pyfloat" where
  "window_total s e xs =
     foldl fadd (Finite 0) (map (window_category_total s e xs) (window_categories s e xs))"

definition window_report :: "pydate \<Rightarrow> pydate \<Rightarrow> expense list \<Rightarrow> line list" where
  "window_report s e xs =
     (if filter (in_window s e) xs = [] then [Text ''No expenses recorded this week.'']
      else map (\<lambda>c. CategoryRow c (window_category_total s e xs c)) (window_categories s e xs) @
           [Text (replicate 50 CHR ''-''), TotalRow (window_total s e xs),
            Text (replicate 50 CHR ''=''), Text ''''])"

text \<open>
  The stores on which \<open>weekly_summary\<close> raises nothing: every date is there and
  parses, and the records of the window have a category and an amount.
\<close>

definition date_parses :: "expense \<Rightarrow> bool" where
  "date_parses x =
     (case date x of
        None \<Rightarrow> False
      | Some ds \<Rightarrow> (case strptime_ymd ds of Inl _ \<Rightarrow> False | Inr _ \<Rightarrow> True))"

definition summary_ok :: "pydate \<Rightarrow> pydate \<Rightarrow> expense list \<Rightarrow> bool" where
  "summary_ok s e xs =
     (list_all date_parses xs \<and>
      list_all (\<lambda>x. category x \<noteq> None \<and> amount x \<noteq> None) (filter (in_window s e) xs))"

subsection \<open>The rows of the list\<close>

definition complete :: "expense \<Rightarrow> bool" where
  "complete x = (date x \<noteq> None \<and> category x \<noteq> None \<and> amount x \<noteq> None)"

definition row_of :: "expense \<Rightarrow> line" where
  "row_of x = ExpenseRow (date_of x) (category_of x) (amount_of x) (take 28 (get_description x))"

fun is_row :: "line \<Rightarrow> bool" where
  "is_row (ExpenseRow _ _ _ _) = True"
| "is_row _ = False"

fun row_date :: "line \<Rightarrow> string" where
  "row_date (ExpenseRow ds _ _ _) = ds"
| "row_date _ = ''''"

fun row_desc :: "line \<Rightarrow> string" where
  "row_desc (ExpenseRow _ _ _ s) = s"
| "row_desc _ = ''''"

text \<open>The lines a call added to the terminal, and the rows among them.\<close>

definition new_output :: "world \<Rightarrow> world \<Rightarrow> line list" where
  "new_output w w' = drop (length (stdout w)) (stdout w')"

definition printed_rows :: "tracker \<Rightarrow> world \<Rightarrow> line list" where
  "printed_rows t w = filter is_row (new_output w (snd (snd (list_all_expenses t w))))"

subsection \<open>Sequences of calls\<close>

text \<open>
  A sequence of calls of \<open>add_expense\<close>, each with the date the clock reads at that
  moment; an exception of one call does not stop the caller from making the next.
\<close>

fun run_adds :: "(pydate \<times> pyarg \<times> string \<times> string) list \<Rightarrow> tracker \<Rightarrow> world \<Rightarrow> tracker \<times> world" where
  "run_adds [] t w = (t, w)"
| "run_adds ((today, amt, cat, descr) # calls) t w =
     (case add_expense amt cat descr t (w\<lparr>now := today\<rparr>) of
        (_, t', w') \<Rightarrow> run_adds calls t' w')"

text \<open>
  The record a call is to leave in the store: none when \<open>float(amount)\<close> raises,
  otherwise the date of the clock as a string, the float that \<open>float(amount)\<close>
  returned, and the category and description as given.
\<close>

fun record_of_call :: "pydate \<times> pyarg \<times> string \<times> string \<Rightarrow> expense list" where
  "record_of_call (today, amt, cat, descr) =
     (case py_float amt of
        Inl _ \<Rightarrow> []
      | Inr x \<Rightarrow> [\<lparr>date = Some (strftime_ymd today), amount = Some x,
                     category = Some cat, description = Some descr\<rparr>])"

subsection \<open>Reading the dict of totals\<close>

definition total_of :: "string \<Rightarrow> (string \<times> pyfloat) list \<Rightarrow> pyfloat" where
  "total_of c al = (case map_of al c of None \<Rightarrow> Finite 0 | Some s \<Rightarrow> s)"

subsection \<open>Sample data\<close>

definition tuesday :: pydate where
  "tuesday = \<lparr>year = 2026, month = 11, day = 3\<rparr>"

definition fresh_world :: world where
  "fresh_world = \<lparr>files = (\<lambda>_. None), stdout = [], now = tuesday\<rparr>"

definition fresh_tracker :: tracker where
  "fresh_tracker = \<lparr>filename = ''expenses.json'', expenses = []\<rparr>"

definition mk_expense :: "string \<Rightarrow> rat \<Rightarrow> string \<Rightarrow> string \<Rightarrow> expense" where
  "mk_expense ds a c s =
     \<lparr>date = Some ds, amount = Some (Finite a), category = Some c, description = Some s\<rparr>"

definition sample_expenses :: "expense list" where
  "sample_expenses =
     [mk_expense ''2026-11-02'' (25 / 2) ''Food'' ''lunch'',
      mk_expense ''2026-11-01'' 40 ''Transport'' ''last week'',
      mk_expense ''2026-11-02'' 7 ''Food'' ''coffee'',
      mk_expense ''2026-11-08'' 3 ''Books'' ''paper'',
      mk_expense ''2026-11-09'' 99 ''Food'' ''next week'']"

definition sample_tracker :: tracker where
  "sample_tracker = \<lparr>filename = ''expenses.json'', expenses = sample_expenses\<rparr>"

definition no_description :: expense where
  "no_description =
     \<lparr>date = Some ''2026-11-02'', amount = Some (Finite 5), category = Some ''Misc'',
      description = None\<rparr>"

definition long_description :: expense where
  "long_description =
     mk_expense ''2026-11-03'' 1 ''Misc'' ''abcdefghijklmnopqrstuvwxyz0123456789''"

definition world_with :: "file_content \<Rightarrow> world" where
  "world_with content =
     fresh_world\<lparr>files := (\<lambda>p. if p = ''expenses.json'' then Some content else None)\<rparr>"

definition sparse_tracker :: tracker where
  "sparse_tracker = \<lparr>filename = ''expenses.json'', expenses = [no_description, long_description]\<rparr>"

definition big_expenses :: "expense list" where
  "big_expenses =
     [mk_expense ''2026-11-02'' 10000000000000000 ''A'' ''large'',
      mk_expense ''2026-11-02'' 1 ''A'' ''small'',
      mk_expense ''2026-11-02'' (- 10000000000000000) ''B'' ''refund'']"

definition big_tracker :: tracker where
  "big_tracker = \<lparr>filename = ''expenses.json'', expenses = big_expenses\<rparr>"

definition sample_calls :: "(pydate \<times> pyarg \<times> string \<times> string) list" where
  "sample_calls =
     [(tuesday, ArgFloat (Finite (- 5)), ''Food'', ''''),
      (tuesday, ArgStr ''abc'', ''Food'', ''''),
      (tuesday, ArgFloat (Finite 7), ''Books'', ''paper'')]"

section \<open>Evaluating the rounding\<close>

lemma floor_rat_numeral: "\<lfloor>numeral a / numeral b :: rat\<rfloor> = numeral a div numeral b"
  using floor_divide_of_int_eq [of "numeral a" "numeral b", where ?'a = rat] by simp

lemma ceiling_rat_numeral:
  "\<lceil>numeral a / numeral b :: rat\<rceil> = - ((- numeral a) div numeral b)"
  using floor_divide_of_int_eq [of "- numeral a" "numeral b", where ?'a = rat]
  by (simp add: ceiling_def)

lemma bit_length_zero: "bit_length 0 = 0"
  by (simp add: bit_length.simps)

lemma bit_length_pos: "0 < n \<Longrightarrow> bit_length n = Suc (bit_length (n div 2))"
  by (subst bit_length.simps) simp

lemmas round_double_eval =
  round_double_def floor_log2_def round_half_even_def pow2_def Let_def
  bit_length_zero bit_length_pos floor_rat_numeral ceiling_rat_numeral

section \<open>Facts about the library functions\<close>

subsection \<open>Digits\<close>

lemma of_char_digit_char: "k < 10 \<Longrightarrow> (of_char (digit_char k) :: nat) = 48 + k"
  by (simp add: digit_char_def)

lemma digit_char_le: "k < 10 \<Longrightarrow> (digit_char k \<le> c) = (48 + k \<le> (of_char c :: nat))"
  by (simp add: less_eq_char_def of_char_digit_char)

lemma digit_char_ge: "k < 10 \<Longrightarrow> (c \<le> digit_char k) = ((of_char c :: nat) \<le> 48 + k)"
  by (simp add: less_eq_char_def of_char_digit_char)

lemma digit_char_eq: "k < 10 \<Longrightarrow> (digit_char k = c) = (48 + k = (of_char c :: nat))"
  using of_char_eq_iff [of "digit_char k" c, where ?'a = nat] by (simp add: of_char_digit_char)

lemma is_digit_digit_char: "k < 10 \<Longrightarrow> is_digit (digit_char k)"
  by (simp add: is_digit_def digit_char_le digit_char_ge)

lemma digit_val_digit_char: "k < 10 \<Longrightarrow> digit_val (digit_char k) = k"
  by (simp add: digit_val_def of_char_digit_char)

lemmas digit_char_simps = digit_char_le digit_char_ge digit_char_eq is_digit_digit_char
  digit_val_digit_char

lemma year_digits4:
  fixes y :: nat
  assumes "y \<le> 9999"
  shows "1000 * (y div 1000 mod 10) + 100 * (y div 100 mod 10) + 10 * (y div 10 mod 10) +
         y mod 10 = y"
proof -
  define a where "a = y div 10"
  define b where "b = a div 10"
  define c where "c = b div 10"
  have b: "y div 100 = b" unfolding b_def a_def by (simp add: div_mult2_eq [symmetric])
  have c: "y div 1000 = c" unfolding c_def b_def a_def by (simp add: div_mult2_eq [symmetric])
  have c10: "c < 10" using assms c by (simp add: c [symmetric] less_mult_imp_div_less)
  have e1: "y = 10 * a + y mod 10" unfolding a_def by simp
  have e2: "a = 10 * b + a mod 10" unfolding b_def by simp
  have e3: "b = 10 * c + b mod 10" unfolding c_def by simp
  have "1000 * c + 100 * (b mod 10) + 10 * (a mod 10) + y mod 10 = y"
    using e1 e2 e3 by linarith
  then show ?thesis using c10 by (simp add: b c a_def [symmetric])
qed

subsection \<open>Formatting a date and parsing it again\<close>

lemma parse_month_digits2: "1 \<le> m \<Longrightarrow> m \<le> 12 \<Longrightarrow> parse_month (digits2 m) = Some m"
  unfolding parse_month_def digits2_def
  by (simp add: digit_char_simps) arith

lemma parse_day_digits2: "1 \<le> m \<Longrightarrow> m \<le> 31 \<Longrightarrow> parse_day (digits2 m) = Some m"
  unfolding parse_day_def digits2_def
  by (simp add: digit_char_simps) arith

lemma days_in_month_le: "days_in_month y m \<le> 31"
  by (simp add: days_in_month_def)

lemma split_month_digits2: "split_month (digits2 m @ CHR ''-'' # r) = Some (digits2 m, r)"
  unfolding split_month_def digits2_def by (simp add: digit_char_simps)

lemma strptime_strftime: "valid_date d \<Longrightarrow> strptime_ymd (strftime_ymd d) = Inr d"
proof -
  assume v: "valid_date d"
  then have m: "1 \<le> month d" "month d \<le> 12" and dd: "1 \<le> day d" "day d \<le> 31"
    and y: "year d \<le> 9999"
    using days_in_month_le [of "year d" "month d"] by (auto simp: valid_date_def)
  have "strptime_ymd (digits4 (year d) @ CHR ''-'' # digits2 (month d) @ CHR ''-'' # digits2 (day d))
      = Inr d"
    unfolding strptime_ymd_def digits4_def
    using v by (simp add: Let_def valid_date_def digit_char_simps split_month_digits2
        parse_month_digits2 [OF m] parse_day_digits2 [OF dd] year_digits4 [OF y])
  then show ?thesis by (simp add: strftime_ymd_def)
qed

lemma strptime_valid: "strptime_ymd s = Inr d \<Longrightarrow> valid_date d"
  by (auto simp: strptime_ymd_def Let_def split: list.splits if_splits option.splits)

section \<open>Loading, saving and the read-only operations\<close>

lemma files_print [simp]: "files (print ls w) = files w"
  by (simp add: print_def)

lemma stdout_print [simp]: "stdout (print ls w) = stdout w @ ls"
  by (simp add: print_def)

lemma now_print [simp]: "now (print ls w) = now w"
  by (simp add: print_def)

lemma files_print_rows: "files (snd (print_rows xs w)) = files w"
  by (induction xs arbitrary: w) (auto simp: getitem_def split: option.splits)

lemma files_print_rows_eq: "print_rows xs w = (r, w') \<Longrightarrow> files w' = files w"
  using files_print_rows [of xs w] by simp

text \<open>
  C3. Saving the store and loading the file again gives the list that was saved, with
  the same records in the same order; a tracker constructed on the file is the one
  that saved it.
\<close>

theorem save_then_load:
  "load_expenses (filename t) (save_expenses t w) = Inr (expenses t) \<and>
   init (filename t) (save_expenses t w) = Inr t"
  by (simp add: load_expenses_def save_expenses_def json_dump_def init_def)

text \<open>
  C7. \<open>load_expenses\<close> returns the empty list when the file is absent, the parsed
  records when the file holds a document, and raises the parse error when the content
  is malformed; the constructor and \<open>main\<close> pass that error on.
\<close>

theorem load_expenses_cases:
  "(files w fn = None \<longrightarrow> load_expenses fn w = Inr []) \<and>
   (files w fn = Some (JsonDoc xs) \<longrightarrow> load_expenses fn w = Inr xs) \<and>
   (files w fn = Some Malformed \<longrightarrow>
      load_expenses fn w = Inl JSONDecodeError \<and> init fn w = Inl JSONDecodeError) \<and>
   (files w ''expenses.json'' = Some Malformed \<longrightarrow> main w ins = (Some JSONDecodeError, w))"
  by (simp add: load_expenses_def init_def main_def)

theorem load_expenses_cases_witness:
  "load_expenses ''expenses.json'' fresh_world = Inr [] \<and>
   load_expenses ''expenses.json'' (world_with (JsonDoc sample_expenses)) = Inr sample_expenses \<and>
   load_expenses ''expenses.json'' (world_with Malformed) = Inl JSONDecodeError \<and>
   init ''expenses.json'' (world_with Malformed) = Inl JSONDecodeError \<and>
   main (world_with Malformed) [''2'', ''4''] = (Some JSONDecodeError, world_with Malformed)"
  using load_expenses_cases [of fresh_world "''expenses.json''" sample_expenses "[]"]
    load_expenses_cases [of "world_with (JsonDoc sample_expenses)" "''expenses.json''"
      sample_expenses "[]"]
    load_expenses_cases [of "world_with Malformed" "''expenses.json''" sample_expenses
      "[''2'', ''4'']"]
  by (simp add: fresh_world_def world_with_def)

text \<open>
  C9. \<open>weekly_summary\<close> and \<open>list_all_expenses\<close> leave the tracker (file name and
  list of expenses) as it was and write no file, whether they return or raise.
\<close>

theorem summaries_read_only:
  "fst (snd (weekly_summary t w)) = t \<and>
   files (snd (snd (weekly_summary t w))) = files w \<and>
   fst (snd (list_all_expenses t w)) = t \<and>
   files (snd (snd (list_all_expenses t w))) = files w"
proof -
  have ws: "fst (snd (weekly_summary t w)) = t \<and> files (snd (snd (weekly_summary t w))) = files w"
    by (simp add: weekly_summary_def Let_def split: sum.splits prod.splits)
  have la: "fst (snd (list_all_expenses t w)) = t"
    by (simp add: list_all_expenses_def Let_def split: sum.splits prod.splits option.splits)
  have "files (snd (snd (list_all_expenses t w))) = files w"
    by (auto simp: list_all_expenses_def Let_def dest: files_print_rows_eq
        split: sum.splits prod.splits option.splits)
  with ws la show ?thesis by simp
qed

lemma add_expense_raises:
  "py_float amt = Inl e \<Longrightarrow> add_expense amt cat descr t w = (Some e, t, w)"
  by (simp add: add_expense_def)

lemma add_expense_stores:
  assumes "py_float amt = Inr x"
  shows "fst (snd (add_expense amt cat descr t w)) =
           t\<lparr>expenses := expenses t @ [\<lparr>date = Some (strftime_ymd (now w)), amount = Some x,
                                        category = Some cat, description = Some descr\<rparr>]\<rparr>"
    and "files (snd (snd (add_expense amt cat descr t w))) =
           (files w)(filename t \<mapsto>
              JsonDoc (expenses t @ [\<lparr>date = Some (strftime_ymd (now w)), amount = Some x,
                                      category = Some cat, description = Some descr\<rparr>]))"
  using assms
  by (simp_all add: add_expense_def Let_def save_expenses_def json_dump_def
      split: pyarg.splits)

text \<open>
  C2. On a fresh store (no file yet) the tracker starts empty; after \<open>add_expense\<close>
  with an amount that \<open>float()\<close> accepts, loading the file gives exactly one record: that
  amount, the category and the description as given, and the date of the clock
  formatted year-month-day, which parses back to the date of the clock.
\<close>

theorem add_then_load:
  assumes "files w fn = None" and "py_float amt = Inr a"
  shows "init fn w = Inr \<lparr>filename = fn, expenses = []\<rparr> \<and>
         load_expenses fn (snd (snd (add_expense amt cat descr \<lparr>filename = fn, expenses = []\<rparr> w))) =
           Inr [\<lparr>date = Some (strftime_ymd (now w)), amount = Some a,
                 category = Some cat, description = Some descr\<rparr>] \<and>
         (clock_date (now w) \<longrightarrow> strptime_ymd (strftime_ymd (now w)) = Inr (now w))"
proof -
  have "init fn w = Inr \<lparr>filename = fn, expenses = []\<rparr>"
    using assms(1) by (simp add: init_def load_expenses_def)
  moreover have
    "load_expenses fn (snd (snd (add_expense amt cat descr \<lparr>filename = fn, expenses = []\<rparr> w))) =
       Inr [\<lparr>date = Some (strftime_ymd (now w)), amount = Some a,
             category = Some cat, description = Some descr\<rparr>]"
    using add_expense_stores(2) [OF assms(2), of cat descr "\<lparr>filename = fn, expenses = []\<rparr>" w]
    by (simp add: load_expenses_def)
  moreover have "clock_date (now w) \<longrightarrow> strptime_ymd (strftime_ymd (now w)) = Inr (now w)"
    by (simp add: clock_date_def strptime_strftime)
  ultimately show ?thesis by simp
qed

theorem add_then_load_witness:
  "files fresh_world ''expenses.json'' = None \<and>
   py_float (ArgFloat (Finite (25 / 2))) = Inr (Finite (25 / 2)) \<and>
   clock_date (now fresh_world) \<and>
   init ''expenses.json'' fresh_world = Inr fresh_tracker \<and>
   load_expenses ''expenses.json''
     (snd (snd (add_expense (ArgFloat (Finite (25 / 2))) ''Food'' ''lunch'' fresh_tracker fresh_world))) =
     Inr [mk_expense ''2026-11-03'' (25 / 2) ''Food'' ''lunch''] \<and>
   strptime_ymd ''2026-11-03'' = Inr tuesday"
proof -
  have f: "files fresh_world ''expenses.json'' = None"
    by (simp add: fresh_world_def)
  have p: "py_float (ArgFloat (Finite (25 / 2))) = Inr (Finite (25 / 2))"
    by simp
  have c: "clock_date (now fresh_world)"
    by (simp add: fresh_world_def tuesday_def clock_date_def valid_date_def days_in_month_def)
  have s: "strftime_ymd tuesday = ''2026-11-03''"
    by code_simp
  show ?thesis
    using add_then_load [OF f p, of "''Food''" "''lunch''"] f c s
    by (simp add: fresh_tracker_def mk_expense_def fresh_world_def)
qed

section \<open>Adding an expense\<close>

lemma float_of_string_error: "float_of_string s = Inl e \<Longrightarrow> e = ValueError"
  by (auto simp: float_of_string_def Let_def split: prod.splits if_splits option.splits)

lemma strftime_tuesday: "strftime_ymd tuesday = ''2026-11-03''"
  by code_simp

lemma clock_date_tuesday: "clock_date tuesday"
  by (simp add: tuesday_def clock_date_def valid_date_def days_in_month_def)

lemma float_of_string_abc: "float_of_string ''abc'' = Inl ValueError"
  by (simp add: float_of_string_def float_strip_def is_float_space_def parse_sign_def
      lower_char_def parse_mantissa_def digitpart_def is_digit_def)

lemma float_of_string_separator: "float_of_string [CHR 0x1C, CHR ''5''] = Inl ValueError"
  by (simp add: float_of_string_def float_strip_def is_float_space_def parse_sign_def
      lower_char_def parse_mantissa_def digitpart_def is_digit_def)

lemma float_of_string_inf: "float_of_string ''inf'' = Inr PosInf"
  by (simp add: float_of_string_def float_strip_def is_float_space_def parse_sign_def
      lower_char_def)

lemma strip_one: "strip ''1'' = ''1''"
  by (simp add: strip_def is_space_def)

lemma strip_four: "strip ''4'' = ''4''"
  by (simp add: strip_def is_space_def)

lemma expenses_add_expense:
  "expenses (fst (snd (add_expense amt cat descr t w))) =
     (case py_float amt of
        Inl _ \<Rightarrow> expenses t
      | Inr x \<Rightarrow> expenses t @ [\<lparr>date = Some (strftime_ymd (now w)), amount = Some x,
                                   category = Some cat, description = Some descr\<rparr>])"
proof (cases "py_float amt")
  case (Inl e)
  then show ?thesis by (simp add: add_expense_raises)
next
  case (Inr x)
  then show ?thesis by (simp add: add_expense_stores(1))
qed

text \<open>
  C5, as the code has it. \<open>add_expense\<close> converts the amount with \<open>float()\<close> and checks
  nothing else. When the conversion raises (\<open>ValueError\<close> for a string that is not a
  number, \<open>TypeError\<close> for \<open>None\<close>, \<open>OverflowError\<close> for an int too large), nothing
  is appended, saved or printed. In \<open>main\<close> the amount is a string, the exception is
  the \<open>ValueError\<close> of the handler, which prints its message and goes on with the
  loop. Every amount \<open>float()\<close> accepts, infinities and NaN among them, is appended to
  the list and written to the file.
\<close>

theorem add_expense_converts_only:
  "(py_float amt = Inl e \<longrightarrow> add_expense amt cat descr t w = (Some e, t, w)) \<and>
   (py_float (ArgStr s) = Inl e \<longrightarrow> e = ValueError) \<and>
   (py_float amt = Inr x \<longrightarrow>
      expenses (fst (snd (add_expense amt cat descr t w))) =
        expenses t @ [\<lparr>date = Some (strftime_ymd (now w)), amount = Some x,
                        category = Some cat, description = Some descr\<rparr>] \<and>
      files (snd (snd (add_expense amt cat descr t w))) (filename t) =
        Some (JsonDoc (expenses (fst (snd (add_expense amt cat descr t w)))))) \<and>
   (strip choice = ''1'' \<and> float_of_string a = Inl e \<longrightarrow>
      main_loop t w (choice # a # rest) =
        main_loop t (print (menu @ [Prompt ''Amount: $'', InvalidAmountMsg]) w) rest)"
proof -
  have 1: "py_float amt = Inl e \<longrightarrow> add_expense amt cat descr t w = (Some e, t, w)"
    by (simp add: add_expense_raises)
  have 2: "py_float (ArgStr s) = Inl e \<longrightarrow> e = ValueError"
    by (auto dest: float_of_string_error)
  have 3: "py_float amt = Inr x \<longrightarrow>
      expenses (fst (snd (add_expense amt cat descr t w))) =
        expenses t @ [\<lparr>date = Some (strftime_ymd (now w)), amount = Some x,
                        category = Some cat, description = Some descr\<rparr>] \<and>
      files (snd (snd (add_expense amt cat descr t w))) (filename t) =
        Some (JsonDoc (expenses (fst (snd (add_expense amt cat descr t w)))))"
    by (simp add: add_expense_stores)
  have 4: "strip choice = ''1'' \<and> float_of_string a = Inl e \<longrightarrow>
      main_loop t w (choice # a # rest) =
        main_loop t (print (menu @ [Prompt ''Amount: $'', InvalidAmountMsg]) w) rest"
    by (auto simp: Let_def print_def dest: float_of_string_error)
  from 1 2 3 4 show ?thesis by blast
qed

theorem add_expense_converts_only_witness:
  "py_float (ArgStr ''abc'') = Inl ValueError \<and>
   add_expense (ArgStr ''abc'') ''Food'' ''lunch'' sample_tracker fresh_world =
     (Some ValueError, sample_tracker, fresh_world) \<and>
   py_float ArgNone = Inl TypeError \<and>
   add_expense ArgNone ''Food'' ''lunch'' sample_tracker fresh_world =
     (Some TypeError, sample_tracker, fresh_world) \<and>
   py_float (ArgFloat NaN) = Inr NaN \<and>
   expenses (fst (snd (add_expense (ArgFloat NaN) ''Food'' ''lunch'' sample_tracker fresh_world))) =
     sample_expenses @ [\<lparr>date = Some ''2026-11-03'', amount = Some NaN,
                          category = Some ''Food'', description = Some ''lunch''\<rparr>] \<and>
   float_of_string [CHR 0x1C, CHR ''5''] = Inl ValueError \<and>
   main_loop sample_tracker fresh_world [''1'', [CHR 0x1C, CHR ''5''], ''4''] =
     main_loop sample_tracker
       (print (menu @ [Prompt ''Amount: $'', InvalidAmountMsg]) fresh_world) [''4'']"
  using add_expense_converts_only [of "ArgStr ''abc''" ValueError "''Food''" "''lunch''"
      sample_tracker fresh_world "''abc''" NaN "''1''" "[CHR 0x1C, CHR ''5'']" "[''4'']"]
    add_expense_converts_only [of ArgNone TypeError "''Food''" "''lunch''"
      sample_tracker fresh_world "''abc''" NaN "''1''" "[CHR 0x1C, CHR ''5'']" "[''4'']"]
    add_expense_converts_only [of "ArgFloat NaN" ValueError "''Food''" "''lunch''"
      sample_tracker fresh_world "''abc''" NaN "''1''" "[CHR 0x1C, CHR ''5'']" "[''4'']"]
    float_of_string_abc float_of_string_separator strip_one strftime_tuesday
  by (simp add: sample_tracker_def fresh_world_def)

text \<open>
  Against C5 as stated: the amount infinity is not finite, and \<open>add_expense\<close> raises
  nothing, appends the record and writes it to the file; \<open>float('inf')\<close>, which is what
  \<open>main\<close> computes when the user types \<open>inf\<close>, is that amount.
\<close>

theorem infinite_amount_is_stored:
  "\<not> isfinite PosInf \<and>
   float_of_string ''inf'' = Inr PosInf \<and>
   fst (add_expense (ArgFloat PosInf) ''Food'' '''' fresh_tracker fresh_world) = None \<and>
   expenses (fst (snd (add_expense (ArgFloat PosInf) ''Food'' '''' fresh_tracker fresh_world))) =
     [\<lparr>date = Some ''2026-11-03'', amount = Some PosInf, category = Some ''Food'',
       description = Some ''''\<rparr>] \<and>
   files (snd (snd (add_expense (ArgFloat PosInf) ''Food'' '''' fresh_tracker fresh_world)))
       ''expenses.json'' =
     Some (JsonDoc [\<lparr>date = Some ''2026-11-03'', amount = Some PosInf, category = Some ''Food'',
                     description = Some ''''\<rparr>])"
  using float_of_string_inf strftime_tuesday
  by (simp add: add_expense_def Let_def save_expenses_def json_dump_def fresh_tracker_def
      fresh_world_def)

subsection \<open>The loop only adds to the terminal\<close>

lemma prefix_add_expense:
  "add_expense amt cat descr t w = (r, t', w') \<Longrightarrow> prefix (stdout w) (stdout w')"
  by (cases amt) (auto simp: add_expense_def Let_def save_expenses_def split: sum.splits)

lemma prefix_weekly_summary:
  "weekly_summary t w = (r, t', w') \<Longrightarrow> prefix (stdout w) (stdout w')"
  by (auto simp: weekly_summary_def Let_def split: sum.splits if_splits prod.splits)

lemma prefix_print_rows: "print_rows xs w = (r, w') \<Longrightarrow> prefix (stdout w) (stdout w')"
proof (induction xs arbitrary: w)
  case Nil
  then show ?case by simp
next
  case (Cons x xs)
  show ?case
  proof (cases "complete x")
    case True
    then obtain ds c a where "date x = Some ds" "category x = Some c" "amount x = Some a"
      by (auto simp: complete_def)
    with Cons.prems have "print_rows xs (print [ExpenseRow ds c a (take 28 (get_description x))] w) = (r, w')"
      by (simp add: getitem_def)
    from Cons.IH [OF this] show ?thesis
      by (auto simp: prefix_def)
  next
    case False
    with Cons.prems show ?thesis
      by (auto simp: complete_def getitem_def split: option.splits)
  qed
qed

lemma prefix_list_all_expenses:
  "list_all_expenses t w = (r, t', w') \<Longrightarrow> prefix (stdout w) (stdout w')"
  by (auto simp: list_all_expenses_def Let_def prefix_def
      split: sum.splits if_splits prod.splits option.splits dest!: prefix_print_rows)

lemma main_loop_shows_menu:
  "prefix (stdout w @ menu) (stdout (snd (snd (main_loop t w ins))))"
proof (induction "length ins" arbitrary: t w ins rule: less_induct)
  case less
  show ?case
  proof (cases ins)
    case Nil
    then show ?thesis by simp
  next
    case (Cons inp rest)
    define w1 where "w1 = print menu w"
    have K: "prefix (stdout w1) (stdout (snd (snd (main_loop t'' w'' ins'))))"
      if "length ins' < length ins" and "prefix (stdout w1) (stdout w'')" for t'' w'' ins'
    proof -
      have "prefix (stdout w'' @ menu) (stdout (snd (snd (main_loop t'' w'' ins'))))"
        using less [OF that(1)] .
      then have "prefix (stdout w'') (stdout (snd (snd (main_loop t'' w'' ins'))))"
        using append_prefixD by blast
      with that(2) show ?thesis by (rule prefix_order.trans)
    qed
    have P: "prefix (stdout w1) (stdout (print ls w''))" if "prefix (stdout w1) (stdout w'')"
      for ls w''
      using that by (simp add: prefix_def) auto
    have R: "prefix (stdout w1) (stdout w1)" by simp
    consider (one) "strip inp = ''1''"
      | (two) "strip inp \<noteq> ''1''" "strip inp = ''2''"
      | (three) "strip inp \<noteq> ''1''" "strip inp \<noteq> ''2''" "strip inp = ''3''"
      | (four) "strip inp \<noteq> ''1''" "strip inp \<noteq> ''2''" "strip inp \<noteq> ''3''" "strip inp = ''4''"
      | (other) "strip inp \<noteq> ''1''" "strip inp \<noteq> ''2''" "strip inp \<noteq> ''3''" "strip inp \<noteq> ''4''"
      by blast
    then have "prefix (stdout w1) (stdout (snd (snd (main_loop t w (inp # rest)))))"
    proof cases
      case one
      show ?thesis
      proof (cases rest)
        case Nil
        with one show ?thesis
          by (simp add: Let_def w1_def [symmetric] P [OF R])
      next
        case r1: (Cons a ins1)
        define w2 where "w2 = print [Prompt ''Amount: $''] w1"
        have p2: "prefix (stdout w1) (stdout w2)" unfolding w2_def by (rule P [OF R])
        show ?thesis
        proof (cases "float_of_string a")
          case (Inl e)
          have "length ins1 < length ins" using Cons r1 by simp
          from K [OF this P [OF p2]] one r1 Inl p2 show ?thesis
            by (simp add: Let_def w1_def [symmetric] w2_def [symmetric])
        next
          case (Inr x)
          define w3 where
            "w3 = print [Prompt ''Category (e.g., Food, Transport, Entertainment): ''] w2"
          have p3: "prefix (stdout w1) (stdout w3)" unfolding w3_def by (rule P [OF p2])
          show ?thesis
          proof (cases ins1)
            case Nil
            with one r1 Inr p3 show ?thesis
              by (simp add: Let_def w1_def [symmetric] w2_def [symmetric] w3_def [symmetric])
          next
            case r2: (Cons c ins2)
            define w4 where "w4 = print [Prompt ''Description (optional): ''] w3"
            have p4: "prefix (stdout w1) (stdout w4)" unfolding w4_def by (rule P [OF p3])
            show ?thesis
            proof (cases ins2)
              case Nil
              with one r1 r2 Inr p4 show ?thesis
                by (simp add: Let_def w1_def [symmetric] w2_def [symmetric] w3_def [symmetric]
                    w4_def [symmetric])
            next
              case r3: (Cons d ins3)
              obtain r t' w' where a: "add_expense (ArgFloat x) (strip c) (strip d) t w4 = (r, t', w')"
                by (cases "add_expense (ArgFloat x) (strip c) (strip d) t w4") auto
              from prefix_add_expense [OF a] p4 have p5: "prefix (stdout w1) (stdout w')"
                by (rule prefix_order.trans [rotated])
              have len: "length ins3 < length ins" using Cons r1 r2 r3 by simp
              have eq: "main_loop t w (inp # rest) =
                  (case r of None \<Rightarrow> main_loop t' w' ins3
                   | Some e \<Rightarrow> if is_ValueError e
                       then main_loop t' (print [InvalidAmountMsg] w') ins3 else (Some e, t', w'))"
                using one r1 r2 r3 Inr a
                by (simp add: Let_def w1_def [symmetric] w2_def [symmetric] w3_def [symmetric]
                    w4_def [symmetric] split: option.splits)
              show ?thesis
                unfolding eq using K [OF len p5] K [OF len P [OF p5]] p5
                by (simp split: option.splits)
            qed
          qed
        qed
      qed
    next
      case two
      obtain r t' w' where a: "weekly_summary t w1 = (r, t', w')"
        by (cases "weekly_summary t w1") auto
      have p: "prefix (stdout w1) (stdout w')" by (rule prefix_weekly_summary [OF a])
      have len: "length rest < length ins" using Cons by simp
      have eq: "main_loop t w (inp # rest) =
          (case r of None \<Rightarrow> main_loop t' w' rest | Some e \<Rightarrow> (Some e, t', w'))"
        using two a by (simp add: Let_def w1_def [symmetric] split: option.splits)
      show ?thesis unfolding eq using K [OF len p] p by (simp split: option.splits)
    next
      case three
      obtain r t' w' where a: "list_all_expenses t w1 = (r, t', w')"
        by (cases "list_all_expenses t w1") auto
      have p: "prefix (stdout w1) (stdout w')" by (rule prefix_list_all_expenses [OF a])
      have len: "length rest < length ins" using Cons by simp
      have eq: "main_loop t w (inp # rest) =
          (case r of None \<Rightarrow> main_loop t' w' rest | Some e \<Rightarrow> (Some e, t', w'))"
        using three a by (simp add: Let_def w1_def [symmetric] split: option.splits)
      show ?thesis unfolding eq using K [OF len p] p by (simp split: option.splits)
    next
      case four
      then show ?thesis
        by (simp add: Let_def w1_def [symmetric] P [OF R])
    next
      case other
      have len: "length rest < length ins" using Cons by simp
      from K [OF len P [OF R]] other show ?thesis
        by (simp add: Let_def w1_def [symmetric])
    qed
    then show ?thesis using Cons by (simp add: w1_def)
  qed
qed

text \<open>
  C8. In the add-expense flow (choice 1), when \<open>float()\<close> rejects the amount typed,
  the exception is the \<open>ValueError\<close> that the handler catches: the loop goes on with
  the rest of the input, with the same tracker and the same files, having printed the
  menu, the prompt and the error message; and it shows the menu again.
\<close>

theorem invalid_amount_keeps_store:
  assumes "strip choice = ''1''" and "float_of_string a = Inl e"
  shows "main_loop t w (choice # a # rest) =
           main_loop t (print (menu @ [Prompt ''Amount: $'', InvalidAmountMsg]) w) rest \<and>
         files (print (menu @ [Prompt ''Amount: $'', InvalidAmountMsg]) w) = files w \<and>
         prefix (stdout w @ menu @ [Prompt ''Amount: $'', InvalidAmountMsg] @ menu)
           (stdout (snd (snd (main_loop t w (choice # a # rest)))))"
proof -
  let ?w' = "print (menu @ [Prompt ''Amount: $'', InvalidAmountMsg]) w"
  have "e = ValueError" using assms(2) by (rule float_of_string_error)
  with assms have eq: "main_loop t w (choice # a # rest) = main_loop t ?w' rest"
    by (simp add: Let_def print_def)
  have "prefix (stdout ?w' @ menu) (stdout (snd (snd (main_loop t ?w' rest))))"
    by (rule main_loop_shows_menu)
  with eq show ?thesis by simp
qed

theorem invalid_amount_keeps_store_witness:
  "strip ''1'' = ''1'' \<and> float_of_string ''abc'' = Inl ValueError \<and>
   main_loop sample_tracker fresh_world [''1'', ''abc'', ''4''] =
     (None, sample_tracker,
      print (menu @ [Prompt ''Amount: $'', InvalidAmountMsg] @ menu @ [GoodbyeMsg]) fresh_world) \<and>
   float_of_string [CHR 0x1C, CHR ''5''] = Inl ValueError \<and>
   main_loop sample_tracker fresh_world [''1'', [CHR 0x1C, CHR ''5''], ''4''] =
     (None, sample_tracker,
      print (menu @ [Prompt ''Amount: $'', InvalidAmountMsg] @ menu @ [GoodbyeMsg]) fresh_world)"
  using invalid_amount_keeps_store [OF strip_one float_of_string_abc,
      of sample_tracker fresh_world "[''4'']"]
    invalid_amount_keeps_store [OF strip_one float_of_string_separator,
      of sample_tracker fresh_world "[''4'']"]
    strip_one strip_four float_of_string_abc float_of_string_separator
  by (simp add: Let_def print_def)

text \<open>
  C6, as the code has it. After any sequence of calls of \<open>add_expense\<close>, the store
  holds, after the records it started with, one record for each call whose
  \<open>float(amount)\<close> raised nothing, in the order of the calls: its amount is the float
  that \<open>float(amount)\<close> returned, of either sign, its category and description are the
  arguments, and its date is the date of the clock as a string. When the clock reads
  valid dates with a year of four digits, these dates parse as calendar dates, so a
  store that started with parsable dates and amounts keeps them.
\<close>

theorem add_expense_stores_float:
  "expenses (fst (run_adds calls t w)) = expenses t @ concat (map record_of_call calls) \<and>
   (list_all (\<lambda>c. clock_date (fst c)) calls \<longrightarrow>
      list_all (\<lambda>x. date_parses x \<and> amount x \<noteq> None) (concat (map record_of_call calls)) \<and>
      (list_all (\<lambda>x. date_parses x \<and> amount x \<noteq> None) (expenses t) \<longrightarrow>
         list_all (\<lambda>x. date_parses x \<and> amount x \<noteq> None) (expenses (fst (run_adds calls t w)))))"
proof -
  have st: "expenses (fst (run_adds calls t w)) = expenses t @ concat (map record_of_call calls)"
  proof (induction calls arbitrary: t w)
    case Nil
    then show ?case by simp
  next
    case (Cons c calls)
    obtain today amt cat descr where c: "c = (today, amt, cat, descr)"
      by (cases c) auto
    obtain r t' w' where a: "add_expense amt cat descr t (w\<lparr>now := today\<rparr>) = (r, t', w')"
      by (cases "add_expense amt cat descr t (w\<lparr>now := today\<rparr>)") auto
    have "expenses t' = expenses (fst (snd (add_expense amt cat descr t (w\<lparr>now := today\<rparr>))))"
      using a by simp
    then have "expenses t' = expenses t @ record_of_call c"
      by (simp add: expenses_add_expense c split: sum.splits)
    with Cons.IH [of t' w'] a c show ?case by simp
  qed
  have ok: "list_all (\<lambda>x. date_parses x \<and> amount x \<noteq> None) (concat (map record_of_call calls))"
    if "list_all (\<lambda>c. clock_date (fst c)) calls"
    using that
  proof (induction calls)
    case Nil
    then show ?case by simp
  next
    case (Cons c calls)
    obtain today amt cat descr where c: "c = (today, amt, cat, descr)"
      by (cases c) auto
    from Cons.prems c have "clock_date today" by simp
    then have "strptime_ymd (strftime_ymd today) = Inr today"
      by (simp add: clock_date_def strptime_strftime)
    then have "list_all (\<lambda>x. date_parses x \<and> amount x \<noteq> None) (record_of_call c)"
      by (simp add: c date_parses_def split: sum.splits)
    with Cons show ?case by simp
  qed
  from st ok show ?thesis by simp
qed

theorem add_expense_stores_float_witness:
  "list_all (\<lambda>c. clock_date (fst c)) sample_calls \<and>
   list_all (\<lambda>x. date_parses x \<and> amount x \<noteq> None) (expenses fresh_tracker) \<and>
   concat (map record_of_call sample_calls) =
     [mk_expense ''2026-11-03'' (- 5) ''Food'' '''',
      mk_expense ''2026-11-03'' 7 ''Books'' ''paper''] \<and>
   expenses (fst (run_adds sample_calls fresh_tracker fresh_world)) =
     [mk_expense ''2026-11-03'' (- 5) ''Food'' '''',
      mk_expense ''2026-11-03'' 7 ''Books'' ''paper''] \<and>
   list_all (\<lambda>x. date_parses x \<and> amount x \<noteq> None)
     (expenses (fst (run_adds sample_calls fresh_tracker fresh_world)))"
proof -
  have c: "list_all (\<lambda>c. clock_date (fst c)) sample_calls"
    by (simp add: sample_calls_def clock_date_tuesday)
  have e: "expenses fresh_tracker = []"
    by (simp add: fresh_tracker_def)
  have r: "concat (map record_of_call sample_calls) =
     [mk_expense ''2026-11-03'' (- 5) ''Food'' '''',
      mk_expense ''2026-11-03'' 7 ''Books'' ''paper'']"
    by (simp add: sample_calls_def float_of_string_abc strftime_tuesday mk_expense_def)
  from add_expense_stores_float [of sample_calls fresh_tracker fresh_world] c e r
  show ?thesis by simp
qed

text \<open>
  Against C6 as stated: one call of \<open>add_expense\<close> with the amount -5 on the empty
  store leaves a record whose amount is negative.
\<close>

theorem negative_amount_is_stored:
  "map amount (expenses (fst (run_adds [(tuesday, ArgFloat (Finite (- 5)), ''Food'', '''')]
      fresh_tracker fresh_world))) = [Some (Finite (- 5))] \<and>
   \<not> nonnegative (Finite (- 5))"
  by (simp add: add_expense_def Let_def fresh_tracker_def)

section \<open>The weekly summary\<close>

subsection \<open>The filter loop\<close>

lemma filter_week_ok:
  "list_all date_parses xs \<Longrightarrow> filter_week s e xs = Inr (filter (in_window s e) xs)"
  by (induction xs)
    (auto simp: date_parses_def in_window_def getitem_def split: option.splits sum.splits)

lemma filter_week_Inr:
  "filter_week s e xs = Inr ys \<Longrightarrow> list_all date_parses xs"
  by (induction xs arbitrary: ys)
    (auto simp: date_parses_def getitem_def split: option.splits sum.splits)

lemma filter_week_fail:
  assumes "\<not> list_all date_parses xs"
  shows "\<exists>err. filter_week s e xs = Inl err"
proof (cases "filter_week s e xs")
  case (Inl err)
  then show ?thesis by blast
next
  case (Inr ys)
  with assms show ?thesis by (auto dest: filter_week_Inr)
qed

subsection \<open>The dict of totals\<close>

lemma map_fst_add_to:
  "map fst (add_to k v al) = (if k \<in> set (map fst al) then map fst al else map fst al @ [k])"
  by (induction al) (force simp: image_iff)+

lemma keys_add_to: "fst ` set (add_to k v al) = insert k (fst ` set al)"
proof -
  have "set (map fst (add_to k v al)) = insert k (set (map fst al))"
    unfolding map_fst_add_to by auto
  then show ?thesis by simp
qed

lemma distinct_add_to: "distinct (map fst al) \<Longrightarrow> distinct (map fst (add_to k v al))"
  by (simp add: map_fst_add_to)

lemma total_of_add_to:
  "total_of c (add_to k v al) = (if c = k then fadd (total_of c al) v else total_of c al)"
  by (induction al) (auto simp: total_of_def)

lemma category_totals_ok:
  "list_all (\<lambda>x. category x \<noteq> None \<and> amount x \<noteq> None) ys \<Longrightarrow>
   \<exists>tot. category_totals acc ys = Inr tot"
  by (induction ys arbitrary: acc) (auto simp: getitem_def)

lemma category_totals_Inr:
  "category_totals acc ys = Inr tot \<Longrightarrow>
   list_all (\<lambda>x. category x \<noteq> None \<and> amount x \<noteq> None) ys"
  by (induction ys arbitrary: acc) (auto simp: getitem_def split: option.splits)

lemma category_totals_keys:
  "category_totals acc ys = Inr tot \<Longrightarrow>
   fst ` set tot = fst ` set acc \<union> category_of ` set ys"
  by (induction ys arbitrary: acc)
    (auto simp: getitem_def category_of_def keys_add_to split: option.splits)

lemma category_totals_distinct:
  "category_totals acc ys = Inr tot \<Longrightarrow> distinct (map fst acc) \<Longrightarrow> distinct (map fst tot)"
  by (induction ys arbitrary: acc)
    (auto simp: getitem_def distinct_add_to split: option.splits)

lemma category_totals_total_of:
  "category_totals acc ys = Inr tot \<Longrightarrow>
   total_of c tot =
     foldl fadd (total_of c acc) (map amount_of (filter (\<lambda>x. category x = Some c) ys))"
  by (induction ys arbitrary: acc)
    (auto simp: getitem_def amount_of_def total_of_add_to split: option.splits)

subsection \<open>Sorting the items\<close>

lemma keys_sorted_items:
  assumes "distinct (map fst tot)"
  shows "map fst (sorted_items tot) = sort (remdups (map fst tot))"
proof -
  have "mset (map fst (sort_key fst tot)) = mset (map fst tot)"
    by simp
  then have d: "distinct (map fst (sort_key fst tot))"
    using assms by (metis mset_eq_imp_distinct_iff)
  have s: "sorted (map fst (sort_key fst tot))"
    by (rule sorted_sort_key)
  have "set (map fst (sort_key fst tot)) = set (sort (remdups (map fst tot)))"
    by simp
  with d s show ?thesis
    unfolding sorted_items_def
    by (intro sorted_distinct_set_unique) simp_all
qed

lemma items_by_key:
  assumes "distinct (map fst tot)"
  shows "sorted_items tot = map (\<lambda>c. (c, total_of c tot)) (map fst (sorted_items tot))"
proof -
  have "p = (fst p, total_of (fst p) tot)" if "p \<in> set tot" for p
  proof -
    from that assms have "map_of tot (fst p) = Some (snd p)"
      by (metis map_of_eq_Some_iff prod.collapse)
    then show ?thesis by (simp add: total_of_def)
  qed
  then have "map (\<lambda>p. (fst p, total_of (fst p) tot)) (sorted_items tot) = sorted_items tot"
    by (intro map_idI) (simp add: sorted_items_def)
  then show ?thesis by (simp add: comp_def)
qed

lemma print_append: "print (a @ b) w = print b (print a w)"
  by (simp add: print_def)

lemma category_totals_fail:
  assumes "\<not> list_all (\<lambda>x. category x \<noteq> None \<and> amount x \<noteq> None) ys"
  shows "\<exists>err. category_totals acc ys = Inl err"
proof (cases "category_totals acc ys")
  case (Inl err)
  then show ?thesis by blast
next
  case (Inr tot)
  with assms show ?thesis by (auto dest: category_totals_Inr)
qed

subsection \<open>The table is the report of the window\<close>

lemma summary_table_window:
  assumes tot: "category_totals [] (filter (in_window s e) xs) = Inr tot"
    and ne: "filter (in_window s e) xs \<noteq> []"
  shows "summary_table (sorted_items tot) = window_report s e xs"
proof -
  let ?ys = "filter (in_window s e) xs"
  have d: "distinct (map fst tot)"
    using category_totals_distinct [OF tot] by simp
  have keys: "set (map fst tot) = set (map category_of ?ys)"
    using category_totals_keys [OF tot] by simp
  have "sort (remdups (map fst tot)) = sort (remdups (map category_of ?ys))"
    by (rule sorted_distinct_set_unique) (simp_all add: keys del: set_map)
  then have cats: "map fst (sorted_items tot) = window_categories s e xs"
    by (simp add: keys_sorted_items [OF d] window_categories_def)
  have val: "total_of c tot = window_category_total s e xs c" for c
    using category_totals_total_of [OF tot, of c]
    by (simp add: total_of_def window_category_total_def)
  have items: "sorted_items tot =
      map (\<lambda>c. (c, window_category_total s e xs c)) (window_categories s e xs)"
    using items_by_key [OF d] by (simp add: cats val)
  have rows: "map (\<lambda>(c, a). CategoryRow c a) (sorted_items tot) =
      map (\<lambda>c. CategoryRow c (window_category_total s e xs c)) (window_categories s e xs)"
    by (simp add: items comp_def)
  have total: "foldl fadd (Finite 0) (map snd (sorted_items tot)) = window_total s e xs"
    by (simp add: items comp_def window_total_def)
  show ?thesis
    unfolding summary_table_def window_report_def using ne by (simp add: rows total)
qed

lemma weekly_summary_ok:
  assumes r: "get_week_range w = Inr (s, e)" and ok: "summary_ok s e (expenses t)"
  shows "weekly_summary t w =
    (None, t, print (summary_header s e @ window_report s e (expenses t)) w)"
proof -
  let ?ys = "filter (in_window s e) (expenses t)"
  have f: "filter_week s e (expenses t) = Inr ?ys"
    using ok by (simp add: summary_ok_def filter_week_ok)
  show ?thesis
  proof (cases "?ys = []")
    case True
    then show ?thesis
      using r f by (simp add: weekly_summary_def Let_def window_report_def print_append)
  next
    case False
    from ok obtain tot where tot: "category_totals [] ?ys = Inr tot"
      using category_totals_ok [of ?ys "[]"] by (auto simp: summary_ok_def)
    from summary_table_window [OF tot False] r f tot False show ?thesis
      by (simp add: weekly_summary_def Let_def print_append)
  qed
qed

lemma weekly_summary_not_ok:
  assumes r: "get_week_range w = Inr (s, e)" and bad: "\<not> summary_ok s e (expenses t)"
  shows "\<exists>err. weekly_summary t w = (Some err, t, print (summary_header s e) w)"
proof (cases "list_all date_parses (expenses t)")
  case False
  from filter_week_fail [OF this, of s e] r show ?thesis
    by (auto simp: weekly_summary_def Let_def)
next
  case True
  let ?ys = "filter (in_window s e) (expenses t)"
  have f: "filter_week s e (expenses t) = Inr ?ys"
    using True by (simp add: filter_week_ok)
  from bad True have nc: "\<not> list_all (\<lambda>x. category x \<noteq> None \<and> amount x \<noteq> None) ?ys"
    by (simp add: summary_ok_def)
  then have ne: "?ys \<noteq> []" by auto
  from category_totals_fail [OF nc, of "[]"] r f ne show ?thesis
    by (auto simp: weekly_summary_def Let_def)
qed

text \<open>
  C1, as the code has it. The window of \<open>weekly_summary\<close> runs from \<open>start\<close>, the
  date of the clock minus its \<open>weekday()\<close> in days, to \<open>end\<close>, six days after
  \<open>start\<close>, both included. On every store where the call raises nothing, each
  category row shows the floating-point sum, in the order of the store, of the amounts
  of exactly the records whose date lies in the window and whose category is that of
  the row, and the grand total is the floating-point sum of these category totals in
  the sorted order of the categories; a record outside the window enters no sum. With
  no record in the window the call prints the message and no total. On the other
  stores (a date missing or not parsable, a record of the window without category or
  amount) it raises after the header and prints no total.
\<close>

theorem weekly_summary_total:
  "case get_week_range w of
     Inl err \<Rightarrow> weekly_summary t w = (Some err, t, w)
   | Inr (s, e) \<Rightarrow>
       date_sub_days (now w) (weekday (now w)) = Inr s \<and>
       date_add_days s 6 = Inr e \<and>
       (if summary_ok s e (expenses t)
        then weekly_summary t w =
               (None, t, print (summary_header s e @ window_report s e (expenses t)) w)
        else (\<exists>err. weekly_summary t w = (Some err, t, print (summary_header s e) w)))"
proof (cases "get_week_range w")
  case (Inl err)
  then show ?thesis by (simp add: weekly_summary_def)
next
  case (Inr p)
  obtain s e where p: "p = (s, e)" by (cases p)
  have r: "get_week_range w = Inr (s, e)" using Inr p by simp
  then have w: "date_sub_days (now w) (weekday (now w)) = Inr s \<and> date_add_days s 6 = Inr e"
    by (auto simp: get_week_range_def Let_def split: sum.splits)
  show ?thesis
    using w weekly_summary_ok [OF r] weekly_summary_not_ok [OF r] by (simp add: r)
qed

lemma funpow6: "(f ^^ 6) x = f (f (f (f (f (f x)))))"
  by (simp add: eval_nat_numeral)

lemma days_before_november: "days_before_month 2026 11 = 304"
  by (simp add: days_before_month_def days_in_month_def is_leap_def upt_conv_Cons)

lemma days_before_2026: "days_before_year 2026 = 739616"
  by (simp add: days_before_year_def)

lemma toordinal_november: "toordinal \<lparr>year = 2026, month = 11, day = d\<rparr> = 739920 + d"
  by (simp add: toordinal_def days_before_november days_before_2026)

lemma weekday_tuesday: "weekday tuesday = Suc 0"
  by (simp add: weekday_def tuesday_def toordinal_november)

lemma monday_before_tuesday:
  "date_sub_days tuesday (Suc 0) = Inr \<lparr>year = 2026, month = 11, day = 2\<rparr>"
  by (simp add: date_sub_days_def tuesday_def toordinal_november prev_day_def)

lemma sunday_after_monday:
  "date_add_days \<lparr>year = 2026, month = 11, day = 2\<rparr> 6 =
     Inr \<lparr>year = 2026, month = 11, day = 8\<rparr>"
  by (simp add: date_add_days_def toordinal_november max_ordinal_def next_day_def
      days_in_month_def funpow6)

lemma week_range_tuesday:
  "get_week_range fresh_world =
     Inr (\<lparr>year = 2026, month = 11, day = 2\<rparr>, \<lparr>year = 2026, month = 11, day = 8\<rparr>)"
  by (simp add: get_week_range_def fresh_world_def Let_def weekday_tuesday
      monday_before_tuesday sunday_after_monday)

lemma strptime_samples:
  "strptime_ymd ''2026-11-01'' = Inr \<lparr>year = 2026, month = 11, day = 1\<rparr>"
  "strptime_ymd ''2026-11-02'' = Inr \<lparr>year = 2026, month = 11, day = 2\<rparr>"
  "strptime_ymd ''2026-11-03'' = Inr \<lparr>year = 2026, month = 11, day = 3\<rparr>"
  "strptime_ymd ''2026-11-08'' = Inr \<lparr>year = 2026, month = 11, day = 8\<rparr>"
  "strptime_ymd ''2026-11-09'' = Inr \<lparr>year = 2026, month = 11, day = 9\<rparr>"
  by code_simp+

lemma window_sample:
  "filter (in_window \<lparr>year = 2026, month = 11, day = 2\<rparr> \<lparr>year = 2026, month = 11, day = 8\<rparr>)
     sample_expenses =
   [mk_expense ''2026-11-02'' (25 / 2) ''Food'' ''lunch'',
    mk_expense ''2026-11-02'' 7 ''Food'' ''coffee'',
    mk_expense ''2026-11-08'' 3 ''Books'' ''paper'']"
  by (simp add: sample_expenses_def in_window_def mk_expense_def strptime_samples date_le_def)

lemma summary_ok_sample:
  "summary_ok \<lparr>year = 2026, month = 11, day = 2\<rparr> \<lparr>year = 2026, month = 11, day = 8\<rparr>
     sample_expenses"
  unfolding summary_ok_def window_sample
  by (simp add: sample_expenses_def date_parses_def mk_expense_def strptime_samples)

lemma window_report_sample:
  "window_report \<lparr>year = 2026, month = 11, day = 2\<rparr> \<lparr>year = 2026, month = 11, day = 8\<rparr>
     sample_expenses =
   [CategoryRow ''Books'' (Finite 3), CategoryRow ''Food'' (Finite (39 / 2)),
    Text (replicate 50 CHR ''-''), TotalRow (Finite (45 / 2)),
    Text (replicate 50 CHR ''=''), Text '''']"
proof -
  let ?s = "\<lparr>year = 2026, month = 11, day = 2\<rparr>"
  let ?e = "\<lparr>year = 2026, month = 11, day = 8\<rparr>"
  have c: "window_categories ?s ?e sample_expenses = [''Books'', ''Food'']"
    unfolding window_categories_def window_sample
    by (simp add: category_of_def mk_expense_def)
  have f: "filter (\<lambda>x. in_window ?s ?e x \<and> category x = Some c) sample_expenses =
      filter (\<lambda>x. category x = Some c) (filter (in_window ?s ?e) sample_expenses)" for c
    by (simp add: conj_commute)
  have a1: "round_double 3 = Finite 3"
    by (simp add: round_double_eval)
  have a2: "round_double (25 / 2) = Finite (25 / 2)"
    by (simp add: round_double_eval)
  have a3: "round_double (39 / 2) = Finite (39 / 2)"
    by (simp add: round_double_eval)
  have a4: "round_double (45 / 2) = Finite (45 / 2)"
    by (simp add: round_double_eval)
  have b: "window_category_total ?s ?e sample_expenses ''Books'' = Finite 3"
    unfolding window_category_total_def f window_sample
    by (simp add: amount_of_def mk_expense_def a1)
  have fo: "window_category_total ?s ?e sample_expenses ''Food'' = Finite (39 / 2)"
    unfolding window_category_total_def f window_sample
    by (simp add: amount_of_def mk_expense_def a2 a3)
  have t: "window_total ?s ?e sample_expenses = Finite (45 / 2)"
    unfolding window_total_def c by (simp add: b fo a1 a4)
  show ?thesis
    unfolding window_report_def window_sample by (simp add: c t b fo)
qed

theorem weekly_summary_total_witness:
  "get_week_range fresh_world =
     Inr (\<lparr>year = 2026, month = 11, day = 2\<rparr>, \<lparr>year = 2026, month = 11, day = 8\<rparr>) \<and>
   summary_ok \<lparr>year = 2026, month = 11, day = 2\<rparr> \<lparr>year = 2026, month = 11, day = 8\<rparr>
     (expenses sample_tracker) \<and>
   weekly_summary sample_tracker fresh_world =
     (None, sample_tracker,
      print (summary_header \<lparr>year = 2026, month = 11, day = 2\<rparr>
               \<lparr>year = 2026, month = 11, day = 8\<rparr> @
             [CategoryRow ''Books'' (Finite 3), CategoryRow ''Food'' (Finite (39 / 2)),
              Text (replicate 50 CHR ''-''), TotalRow (Finite (45 / 2)),
              Text (replicate 50 CHR ''=''), Text '''']) fresh_world)"
  using weekly_summary_total [where w = fresh_world and t = sample_tracker]
    week_range_tuesday summary_ok_sample window_report_sample
  by (simp add: sample_tracker_def)

text \<open>
  Against C1 as stated. Three records of the window: 1e16 and 1 in category A, -1e16
  in category B. The sum of the three amounts is 1. The program prints the total 0:
  the total of A is 1e16 + 1, which rounds to 1e16, and adding -1e16 gives 0.
\<close>

lemma window_big:
  "filter (in_window \<lparr>year = 2026, month = 11, day = 2\<rparr> \<lparr>year = 2026, month = 11, day = 8\<rparr>)
     big_expenses = big_expenses"
  by (simp add: big_expenses_def in_window_def mk_expense_def strptime_samples date_le_def)

lemma summary_ok_big:
  "summary_ok \<lparr>year = 2026, month = 11, day = 2\<rparr> \<lparr>year = 2026, month = 11, day = 8\<rparr>
     big_expenses"
  unfolding summary_ok_def window_big
  by (simp add: big_expenses_def date_parses_def mk_expense_def strptime_samples)

lemma window_report_big:
  "window_report \<lparr>year = 2026, month = 11, day = 2\<rparr> \<lparr>year = 2026, month = 11, day = 8\<rparr>
     big_expenses =
   [CategoryRow ''A'' (Finite 10000000000000000),
    CategoryRow ''B'' (Finite (- 10000000000000000)),
    Text (replicate 50 CHR ''-''), TotalRow (Finite 0),
    Text (replicate 50 CHR ''=''), Text '''']"
proof -
  let ?s = "\<lparr>year = 2026, month = 11, day = 2\<rparr>"
  let ?e = "\<lparr>year = 2026, month = 11, day = 8\<rparr>"
  have c: "window_categories ?s ?e big_expenses = [''A'', ''B'']"
    unfolding window_categories_def window_big
    by (simp add: big_expenses_def category_of_def mk_expense_def)
  have f: "filter (\<lambda>x. in_window ?s ?e x \<and> category x = Some c) big_expenses =
      filter (\<lambda>x. category x = Some c) (filter (in_window ?s ?e) big_expenses)" for c
    by (simp add: conj_commute)
  have a1: "round_double 10000000000000000 = Finite 10000000000000000"
    by (simp add: round_double_eval)
  have a2: "round_double 10000000000000001 = Finite 10000000000000000"
    by (simp add: round_double_eval)
  have a3: "round_double (- 10000000000000000) = Finite (- 10000000000000000)"
    by (simp add: round_double_eval)
  have a4: "round_double 0 = Finite 0"
    by (simp add: round_double_def)
  have a: "window_category_total ?s ?e big_expenses ''A'' = Finite 10000000000000000"
    unfolding window_category_total_def f window_big
    by (simp add: big_expenses_def amount_of_def mk_expense_def a1 a2)
  have b: "window_category_total ?s ?e big_expenses ''B'' = Finite (- 10000000000000000)"
    unfolding window_category_total_def f window_big
    by (simp add: big_expenses_def amount_of_def mk_expense_def a3)
  have t: "window_total ?s ?e big_expenses = Finite 0"
    unfolding window_total_def c by (simp add: a b a1 a4)
  have ne: "filter (in_window ?s ?e) big_expenses \<noteq> []"
    unfolding window_big by (simp add: big_expenses_def)
  show ?thesis
    unfolding window_report_def using ne by (simp add: c t a b)
qed

theorem weekly_total_is_rounded:
  "weekly_summary big_tracker fresh_world =
     (None, big_tracker,
      print (summary_header \<lparr>year = 2026, month = 11, day = 2\<rparr>
               \<lparr>year = 2026, month = 11, day = 8\<rparr> @
             [CategoryRow ''A'' (Finite 10000000000000000),
              CategoryRow ''B'' (Finite (- 10000000000000000)),
              Text (replicate 50 CHR ''-''), TotalRow (Finite 0),
              Text (replicate 50 CHR ''=''), Text '''']) fresh_world) \<and>
   exact_window_sum \<lparr>year = 2026, month = 11, day = 2\<rparr> \<lparr>year = 2026, month = 11, day = 8\<rparr>
     (expenses big_tracker) = 1"
proof -
  have "exact_window_sum \<lparr>year = 2026, month = 11, day = 2\<rparr> \<lparr>year = 2026, month = 11, day = 8\<rparr>
      big_expenses = 1"
    unfolding exact_window_sum_def window_big
    by (simp add: big_expenses_def amount_of_def mk_expense_def)
  moreover have "weekly_summary big_tracker fresh_world =
     (None, big_tracker,
      print (summary_header \<lparr>year = 2026, month = 11, day = 2\<rparr>
               \<lparr>year = 2026, month = 11, day = 8\<rparr> @
             window_report \<lparr>year = 2026, month = 11, day = 2\<rparr>
               \<lparr>year = 2026, month = 11, day = 8\<rparr> (expenses big_tracker)) fresh_world)"
    using summary_ok_big by (intro weekly_summary_ok week_range_tuesday) (simp add: big_tracker_def)
  ultimately show ?thesis
    by (simp add: big_tracker_def window_report_big)
qed

section \<open>The list of all expenses\<close>

subsection \<open>The sort\<close>

lemma date_keys_ok:
  "list_all (\<lambda>x. date x \<noteq> None) xs \<Longrightarrow> date_keys xs = Inr (map date_of xs)"
  by (induction xs) (auto simp: getitem_def date_of_def)

lemma date_keys_fail:
  "\<not> list_all (\<lambda>x. date x \<noteq> None) xs \<Longrightarrow> \<exists>err. date_keys xs = Inl err"
  by (induction xs) (auto simp: getitem_def split: option.splits sum.splits)

lemma zip_keys: "zip (map f xs) xs = map (\<lambda>x. (f x, x)) xs"
  by (induction xs) simp_all

lemma sorted_reverse_descending:
  "sorted (rev (map f (sorted_reverse (map (\<lambda>x. (f x, x)) xs))))"
proof -
  let ?S = "rev (sort_key fst (rev (map (\<lambda>x. (f x, x)) xs)))"
  have "p \<in> set ?S \<Longrightarrow> f (snd p) = fst p" for p by auto
  then have "map (\<lambda>p. f (snd p)) ?S = map fst ?S"
    by (intro map_cong) simp_all
  then have "rev (map f (sorted_reverse (map (\<lambda>x. (f x, x)) xs))) =
      map fst (sort_key fst (rev (map (\<lambda>x. (f x, x)) xs)))"
    unfolding sorted_reverse_def by (simp add: comp_def rev_map)
  then show ?thesis by (simp only: sorted_sort_key)
qed

lemma sorted_reverse_stable:
  "filter (\<lambda>x. f x = k) (sorted_reverse (map (\<lambda>x. (f x, x)) xs)) = filter (\<lambda>x. f x = k) xs"
proof -
  let ?D = "map (\<lambda>x. (f x, x)) xs"
  let ?S = "rev (sort_key fst (rev ?D))"
  have "filter (\<lambda>p. fst p = k) ?S = rev (filter (\<lambda>p. fst p = k) (sort_key fst (rev ?D)))"
    by (simp add: rev_filter)
  also have "\<dots> = rev (filter (\<lambda>p. fst p = k) (rev ?D))"
    by (simp only: sort_key_stable)
  also have "\<dots> = filter (\<lambda>p. fst p = k) ?D"
    by (simp add: rev_filter)
  finally have st: "filter (\<lambda>p. fst p = k) ?S = filter (\<lambda>p. fst p = k) ?D" .
  have "p \<in> set ?S \<Longrightarrow> (f (snd p) = k) = (fst p = k)" for p by auto
  then have "filter (\<lambda>p. f (snd p) = k) ?S = filter (\<lambda>p. fst p = k) ?S"
    by (intro filter_cong) simp_all
  then have "filter (\<lambda>x. f x = k) (map snd ?S) = map snd (filter (\<lambda>p. fst p = k) ?D)"
    by (simp add: filter_map comp_def st)
  also have "\<dots> = filter (\<lambda>x. f x = k) xs"
    by (simp add: filter_map comp_def)
  finally show ?thesis by (simp add: sorted_reverse_def)
qed

lemma mset_sorted_reverse: "mset (sorted_reverse (map (\<lambda>x. (f x, x)) xs)) = mset xs"
  by (simp add: sorted_reverse_def multiset.map_comp comp_def)

lemma sorted_by_date_desc_ok:
  "list_all (\<lambda>x. date x \<noteq> None) xs \<Longrightarrow>
   sorted_by_date_desc xs = Inr (sorted_reverse (map (\<lambda>x. (date_of x, x)) xs))"
  by (simp add: sorted_by_date_desc_def date_keys_ok zip_keys)

lemma sorted_by_date_desc_fail:
  "\<not> list_all (\<lambda>x. date x \<noteq> None) xs \<Longrightarrow> \<exists>err. sorted_by_date_desc xs = Inl err"
  using date_keys_fail [of xs] by (auto simp: sorted_by_date_desc_def)

subsection \<open>The rows\<close>

lemma row_of_complete:
  "date x = Some ds \<Longrightarrow> category x = Some c \<Longrightarrow> amount x = Some a \<Longrightarrow>
   row_of x = ExpenseRow ds c a (take 28 (get_description x))"
  by (simp add: row_of_def date_of_def category_of_def amount_of_def)

lemma print_rows_world:
  "snd (print_rows xs w) = print (map row_of (takeWhile complete xs)) w"
proof (induction xs arbitrary: w)
  case Nil
  then show ?case by (simp add: print_def)
next
  case (Cons x xs)
  show ?case
  proof (cases "complete x")
    case True
    then obtain ds c a where f: "date x = Some ds" "category x = Some c" "amount x = Some a"
      by (auto simp: complete_def)
    then show ?thesis
      using True Cons.IH by (simp add: getitem_def row_of_complete print_def)
  next
    case False
    then show ?thesis
      by (auto simp: complete_def getitem_def print_def split: option.splits)
  qed
qed

lemma print_rows_result: "(fst (print_rows xs w) = None) = list_all complete xs"
proof (induction xs arbitrary: w)
  case Nil
  then show ?case by simp
next
  case (Cons x xs)
  show ?case
  proof (cases "complete x")
    case True
    then obtain ds c a where f: "date x = Some ds" "category x = Some c" "amount x = Some a"
      by (auto simp: complete_def)
    then show ?thesis
      using True Cons.IH by (simp add: getitem_def)
  next
    case False
    then show ?thesis
      by (auto simp: complete_def getitem_def split: option.splits)
  qed
qed

lemma list_all_expenses_output:
  assumes "expenses t \<noteq> []" and "list_all (\<lambda>x. date x \<noteq> None) (expenses t)"
  shows "fst (snd (list_all_expenses t w)) = t \<and>
    (fst (list_all_expenses t w) = None) =
      list_all complete (sorted_reverse (map (\<lambda>x. (date_of x, x)) (expenses t))) \<and>
    stdout (snd (snd (list_all_expenses t w))) =
      stdout w @ list_header @
      map row_of (takeWhile complete (sorted_reverse (map (\<lambda>x. (date_of x, x)) (expenses t)))) @
      (if fst (list_all_expenses t w) = None then [Text ''''] else [])"
proof -
  let ?srt = "sorted_reverse (map (\<lambda>x. (date_of x, x)) (expenses t))"
  obtain r w2 where p: "print_rows ?srt (print list_header w) = (r, w2)"
    by (cases "print_rows ?srt (print list_header w)") auto
  have w2: "w2 = print (map row_of (takeWhile complete ?srt)) (print list_header w)"
    using print_rows_world [of ?srt "print list_header w"] p by simp
  have r: "(r = None) = list_all complete ?srt"
    using print_rows_result [of ?srt "print list_header w"] p by simp
  show ?thesis
    using assms p r
    by (cases r) (simp_all add: list_all_expenses_def Let_def sorted_by_date_desc_ok w2)
qed

lemma is_row_row_of: "filter is_row (map row_of xs) = map row_of xs"
  by (induction xs) (simp_all add: row_of_def)

lemma is_row_list_header: "filter is_row list_header = []"
  by (simp add: list_header_def)

lemma row_date_row_of: "row_date (row_of x) = date_of x"
  by (simp add: row_of_def)

lemma printed_rows_eq:
  "printed_rows t w =
     (if expenses t \<noteq> [] \<and> list_all (\<lambda>x. date x \<noteq> None) (expenses t)
      then map row_of
             (takeWhile complete (sorted_reverse (map (\<lambda>x. (date_of x, x)) (expenses t))))
      else [])"
proof (cases "expenses t = []")
  case True
  then show ?thesis
    by (simp add: printed_rows_def new_output_def list_all_expenses_def)
next
  case ne: False
  show ?thesis
  proof (cases "list_all (\<lambda>x. date x \<noteq> None) (expenses t)")
    case True
    from list_all_expenses_output [OF ne True, of w] ne True show ?thesis
      by (simp add: printed_rows_def new_output_def is_row_row_of is_row_list_header)
  next
    case False
    from sorted_by_date_desc_fail [OF this] ne False show ?thesis
      by (auto simp: printed_rows_def new_output_def list_all_expenses_def Let_def
          is_row_list_header)
  qed
qed

subsection \<open>Order of the rows\<close>

lemma rows_descending:
  "sorted (rev (map date_of
     (takeWhile complete (sorted_reverse (map (\<lambda>x. (date_of x, x)) xs)))))"
proof -
  let ?srt = "sorted_reverse (map (\<lambda>x. (date_of x, x)) xs)"
  have "sorted (rev (map date_of ?srt))" by (rule sorted_reverse_descending)
  then have "sorted (rev (take n (map date_of ?srt)))" for n
    by (simp add: rev_take sorted_wrt_drop)
  then have "sorted (rev (map date_of (take n ?srt)))" for n
    by (simp add: take_map)
  then show ?thesis by (subst takeWhile_eq_take) blast
qed

lemma rows_of_date:
  "filter (\<lambda>l. row_date l = k) (map row_of xs) = map row_of (filter (\<lambda>x. date_of x = k) xs)"
  by (induction xs) (simp_all add: row_date_row_of)

lemma date_of_filter:
  "list_all (\<lambda>x. date x \<noteq> None) xs \<Longrightarrow>
   filter (\<lambda>x. date_of x = k) xs = filter (\<lambda>x. date x = Some k) xs"
  by (induction xs) (auto simp: date_of_def)

lemma complete_sorted_reverse:
  "list_all complete (sorted_reverse (map (\<lambda>x. (date_of x, x)) xs)) = list_all complete xs"
proof -
  have "set (sorted_reverse (map (\<lambda>x. (date_of x, x)) xs)) = set xs"
    using mset_sorted_reverse [of date_of xs] by (metis set_mset_mset)
  then show ?thesis by (simp add: list_all_iff)
qed

lemma complete_has_date: "list_all complete xs \<Longrightarrow> list_all (\<lambda>x. date x \<noteq> None) xs"
  by (induction xs) (auto simp: complete_def)

lemma list_all_expenses_complete:
  assumes "list_all complete (expenses t)"
  shows "fst (list_all_expenses t w) = None \<and>
         printed_rows t w =
           map row_of (sorted_reverse (map (\<lambda>x. (date_of x, x)) (expenses t)))"
proof (cases "expenses t = []")
  case True
  then show ?thesis
    by (simp add: printed_rows_eq list_all_expenses_def sorted_reverse_def)
next
  case False
  let ?srt = "sorted_reverse (map (\<lambda>x. (date_of x, x)) (expenses t))"
  have d: "list_all (\<lambda>x. date x \<noteq> None) (expenses t)"
    using assms by (rule complete_has_date)
  have c: "list_all complete ?srt"
    using assms by (simp add: complete_sorted_reverse)
  then have tw: "takeWhile complete ?srt = ?srt"
    by (simp add: list_all_iff)
  from list_all_expenses_output [OF False d, of w] c False d show ?thesis
    by (simp add: printed_rows_eq tw)
qed

text \<open>
  C4. The rows \<open>list_all_expenses\<close> prints are in descending order of the date
  field (a string, compared as Python compares strings), on every store, also when a
  later row raises. The rows of one date are printed in the order their records have
  in the store: they are a prefix of the stored records of that date, and all of them
  when every record has its date, category and amount, where the call raises nothing.
\<close>

theorem list_sorted_by_date_descending:
  "sorted (rev (map row_date (printed_rows t w))) \<and>
   (\<forall>k. prefix (filter (\<lambda>l. row_date l = k) (printed_rows t w))
          (map row_of (filter (\<lambda>x. date x = Some k) (expenses t)))) \<and>
   (list_all complete (expenses t) \<longrightarrow>
      fst (list_all_expenses t w) = None \<and>
      (\<forall>k. filter (\<lambda>l. row_date l = k) (printed_rows t w) =
           map row_of (filter (\<lambda>x. date x = Some k) (expenses t))))"
proof -
  let ?xs = "expenses t"
  let ?srt = "sorted_reverse (map (\<lambda>x. (date_of x, x)) ?xs)"
  have 1: "sorted (rev (map row_date (printed_rows t w)))"
    using rows_descending [of ?xs]
    by (auto simp: printed_rows_eq comp_def row_date_row_of)
  have 2: "prefix (filter (\<lambda>l. row_date l = k) (printed_rows t w))
      (map row_of (filter (\<lambda>x. date x = Some k) ?xs))" for k
  proof (cases "?xs \<noteq> [] \<and> list_all (\<lambda>x. date x \<noteq> None) ?xs")
    case True
    have "prefix (takeWhile complete ?srt) ?srt"
      by (rule takeWhile_is_prefix)
    then have "prefix (map row_of (filter (\<lambda>x. date_of x = k) (takeWhile complete ?srt)))
        (map row_of (filter (\<lambda>x. date_of x = k) ?srt))"
      by (intro map_mono_prefix filter_mono_prefix)
    moreover have "filter (\<lambda>x. date_of x = k) ?srt = filter (\<lambda>x. date x = Some k) ?xs"
      using True by (simp add: sorted_reverse_stable date_of_filter)
    moreover have "printed_rows t w = map row_of (takeWhile complete ?srt)"
      using True by (simp add: printed_rows_eq)
    ultimately show ?thesis
      by (simp add: rows_of_date)
  next
    case False
    then have "printed_rows t w = []"
      by (auto simp: printed_rows_eq)
    then show ?thesis by simp
  qed
  have 3: "fst (list_all_expenses t w) = None \<and>
      (\<forall>k. filter (\<lambda>l. row_date l = k) (printed_rows t w) =
           map row_of (filter (\<lambda>x. date x = Some k) ?xs))"
    if c: "list_all complete ?xs"
  proof -
    have "filter (\<lambda>x. date_of x = k) ?srt = filter (\<lambda>x. date x = Some k) ?xs" for k
      using complete_has_date [OF c] by (simp add: sorted_reverse_stable date_of_filter)
    with list_all_expenses_complete [OF c, of w] show ?thesis
      by (simp add: rows_of_date)
  qed
  from 1 2 3 show ?thesis by blast
qed

lemma strings_descending:
  "sorted (rev [''2026-11-09'', ''2026-11-08'', ''2026-11-02'', ''2026-11-02'', ''2026-11-01''])"
  by simp

lemma sample_rows:
  "map row_of (sorted_reverse (map (\<lambda>x. (date_of x, x)) sample_expenses)) =
     [ExpenseRow ''2026-11-09'' ''Food'' (Finite 99) ''next week'',
      ExpenseRow ''2026-11-08'' ''Books'' (Finite 3) ''paper'',
      ExpenseRow ''2026-11-02'' ''Food'' (Finite (25 / 2)) ''lunch'',
      ExpenseRow ''2026-11-02'' ''Food'' (Finite 7) ''coffee'',
      ExpenseRow ''2026-11-01'' ''Transport'' (Finite 40) ''last week'']"
  by (simp add: sample_expenses_def mk_expense_def sorted_reverse_def date_of_def row_of_def
      category_of_def amount_of_def get_description_def)

theorem list_sorted_by_date_descending_witness:
  "list_all complete (expenses sample_tracker) \<and>
   fst (list_all_expenses sample_tracker fresh_world) = None \<and>
   printed_rows sample_tracker fresh_world =
     [ExpenseRow ''2026-11-09'' ''Food'' (Finite 99) ''next week'',
      ExpenseRow ''2026-11-08'' ''Books'' (Finite 3) ''paper'',
      ExpenseRow ''2026-11-02'' ''Food'' (Finite (25 / 2)) ''lunch'',
      ExpenseRow ''2026-11-02'' ''Food'' (Finite 7) ''coffee'',
      ExpenseRow ''2026-11-01'' ''Transport'' (Finite 40) ''last week''] \<and>
   filter (\<lambda>l. row_date l = ''2026-11-02'') (printed_rows sample_tracker fresh_world) =
     map row_of (filter (\<lambda>x. date x = Some ''2026-11-02'') (expenses sample_tracker)) \<and>
   sorted (rev (map row_date (printed_rows sample_tracker fresh_world)))"
proof -
  have c: "list_all complete (expenses sample_tracker)"
    by (simp add: sample_tracker_def sample_expenses_def mk_expense_def complete_def)
  have p: "printed_rows sample_tracker fresh_world =
     [ExpenseRow ''2026-11-09'' ''Food'' (Finite 99) ''next week'',
      ExpenseRow ''2026-11-08'' ''Books'' (Finite 3) ''paper'',
      ExpenseRow ''2026-11-02'' ''Food'' (Finite (25 / 2)) ''lunch'',
      ExpenseRow ''2026-11-02'' ''Food'' (Finite 7) ''coffee'',
      ExpenseRow ''2026-11-01'' ''Transport'' (Finite 40) ''last week'']"
    using list_all_expenses_complete [OF c, of fresh_world] sample_rows
    by (simp add: sample_tracker_def)
  from list_sorted_by_date_descending [of sample_tracker fresh_world] c p show ?thesis
    by blast
qed

text \<open>
  C10. A record without a description does not make \<open>list_all_expenses\<close> raise:
  when every record has its date, category and amount, the call raises nothing,
  whatever descriptions are there, and prints one row for each record of the store,
  showing the first 28 characters of its description, or the empty string when the
  record has none. On every store, no row printed shows more than 28 characters of
  description.
\<close>

theorem list_without_description:
  "(list_all complete (expenses t) \<longrightarrow>
      fst (list_all_expenses t w) = None \<and>
      (\<exists>srt. mset srt = mset (expenses t) \<and>
         printed_rows t w =
           map (\<lambda>x. ExpenseRow (date_of x) (category_of x) (amount_of x)
                      (take 28 (case description x of None \<Rightarrow> '''' | Some s \<Rightarrow> s))) srt)) \<and>
   list_all (\<lambda>l. length (row_desc l) \<le> 28) (printed_rows t w)"
proof -
  let ?srt = "sorted_reverse (map (\<lambda>x. (date_of x, x)) (expenses t))"
  have r: "row_of = (\<lambda>x. ExpenseRow (date_of x) (category_of x) (amount_of x)
      (take 28 (case description x of None \<Rightarrow> '''' | Some s \<Rightarrow> s)))"
    by (rule ext) (simp add: row_of_def get_description_def)
  have 1: "fst (list_all_expenses t w) = None \<and>
      (\<exists>srt. mset srt = mset (expenses t) \<and>
         printed_rows t w =
           map (\<lambda>x. ExpenseRow (date_of x) (category_of x) (amount_of x)
                      (take 28 (case description x of None \<Rightarrow> '''' | Some s \<Rightarrow> s))) srt)"
    if c: "list_all complete (expenses t)"
  proof -
    from list_all_expenses_complete [OF c, of w]
    have "fst (list_all_expenses t w) = None" and "printed_rows t w = map row_of ?srt"
      by simp_all
    moreover have "mset ?srt = mset (expenses t)" by (rule mset_sorted_reverse)
    ultimately show ?thesis unfolding r by blast
  qed
  have "list_all (\<lambda>l. length (row_desc l) \<le> 28) (map row_of xs)" for xs
    by (induction xs) (simp_all add: row_of_def)
  then have 2: "list_all (\<lambda>l. length (row_desc l) \<le> 28) (printed_rows t w)"
    by (auto simp: printed_rows_eq)
  from 1 2 show ?thesis by blast
qed

lemma sparse_rows:
  "map row_of (sorted_reverse (map (\<lambda>x. (date_of x, x)) [no_description, long_description])) =
     [ExpenseRow ''2026-11-03'' ''Misc'' (Finite 1) ''abcdefghijklmnopqrstuvwxyz01'',
      ExpenseRow ''2026-11-02'' ''Misc'' (Finite 5) '''']"
  by (simp add: no_description_def long_description_def mk_expense_def sorted_reverse_def
      date_of_def row_of_def category_of_def amount_of_def get_description_def)

theorem list_without_description_witness:
  "description no_description = None \<and>
   list_all complete (expenses sparse_tracker) \<and>
   fst (list_all_expenses sparse_tracker fresh_world) = None \<and>
   printed_rows sparse_tracker fresh_world =
     [ExpenseRow ''2026-11-03'' ''Misc'' (Finite 1) ''abcdefghijklmnopqrstuvwxyz01'',
      ExpenseRow ''2026-11-02'' ''Misc'' (Finite 5) ''''] \<and>
   list_all (\<lambda>l. length (row_desc l) \<le> 28) (printed_rows sparse_tracker fresh_world)"
proof -
  have c: "list_all complete (expenses sparse_tracker)"
    by (simp add: sparse_tracker_def no_description_def long_description_def mk_expense_def
        complete_def)
  have p: "printed_rows sparse_tracker fresh_world =
     [ExpenseRow ''2026-11-03'' ''Misc'' (Finite 1) ''abcdefghijklmnopqrstuvwxyz01'',
      ExpenseRow ''2026-11-02'' ''Misc'' (Finite 5) '''']"
    using list_all_expenses_complete [OF c, of fresh_world] sparse_rows
    by (simp add: sparse_tracker_def)
  have d: "description no_description = None"
    by (simp add: no_description_def)
  from list_without_description [of sparse_tracker fresh_world] c p d show ?thesis
    by blast
qed

end
